theory Spec2Isabelle
  imports Main
begin

chapter \<open>The quest scraper\<close>

text \<open>
  A model of the two scripts of the repository, \<open>MultiScraper/QuestScraper.py\<close> (the
  batch script) and \<open>SingelRunScraper/QuestScraperSingelRun.py\<close> (the single-user
  script): the extraction of the quest records from a parsed page, the drivers of the
  browser session, and the loop over the usernames. The browser (Selenium), the parser
  of the markup (BeautifulSoup) and the file system are outside the repository; the
  document tree and its searches are modelled after the library, and what the browser,
  the parser and \<open>json.dump\<close> answer is a parameter. The extraction is that of the
  batch script; the single-user script has the same code, with log messages that do
  not name a user.
\<close>

section \<open>Python strings\<close>

text \<open>
  A Python \<open>str\<close> is a sequence of code points. Here a \<^typ>\<open>char\<close> stands for one code
  point below U+0100 (the Latin-1 range), so \<^typ>\<open>string\<close> covers the ASCII and Latin-1
  inputs of the program; on that range \<open>str.isspace\<close> and \<open>str.isalnum\<close> are the
  tables of the Unicode database written out below.
\<close>

definition isspace :: "char \<Rightarrow> bool" where
  "isspace c =
     (let n = (of_char c :: nat)
      in (9 \<le> n \<and> n \<le> 13) \<or> (28 \<le> n \<and> n \<le> 32) \<or> n = 133 \<or> n = 160)"

definition isalnum :: "char \<Rightarrow> bool" where
  "isalnum c =
     (let n = (of_char c :: nat)
      in (48 \<le> n \<and> n \<le> 57) \<or> (65 \<le> n \<and> n \<le> 90) \<or> (97 \<le> n \<and> n \<le> 122)
         \<or> n = 170 \<or> n = 178 \<or> n = 179 \<or> n = 181 \<or> n = 185 \<or> n = 186
         \<or> (188 \<le> n \<and> n \<le> 190)
         \<or> (192 \<le> n \<and> n \<le> 214) \<or> (216 \<le> n \<and> n \<le> 246) \<or> (248 \<le> n \<and> n \<le> 255))"

text \<open>\<open>s.strip()\<close>: leading and trailing whitespace removed.\<close>

definition strip :: "string \<Rightarrow> string" where
  "strip s = rev (dropWhile isspace (rev (dropWhile isspace s)))"

text \<open>\<open>s.startswith(p)\<close>.\<close>

definition startswith :: "string \<Rightarrow> string \<Rightarrow> bool" where
  "startswith s p = (take (length p) s = p)"

text \<open>\<open>sub in s\<close> on two strings: \<open>sub\<close> occurs in \<open>s\<close> as a contiguous run.\<close>

fun str_contains :: "string \<Rightarrow> string \<Rightarrow> bool" where
  "str_contains [] sub = (sub = [])"
| "str_contains (c # s) sub = (startswith (c # s) sub \<or> str_contains s sub)"

section \<open>Exceptions\<close>

text \<open>
  The exceptions the program meets. \<open>KeyboardInterrupt\<close> and \<open>SystemExit\<close> derive from
  \<open>BaseException\<close> only: a handler \<open>except Exception\<close> lets them pass.
\<close>

datatype exn =
    KeyError string
  | AttributeError string
  | TypeError string
  | TimeoutException
  | NoSuchElementException
  | ElementClickInterceptedException
  | WebDriverException string
  | IOError string
  | Exception string
  | KeyboardInterrupt
  | SystemExit

fun is_Exception :: "exn \<Rightarrow> bool" where
  "is_Exception KeyboardInterrupt = False"
| "is_Exception SystemExit = False"
| "is_Exception _ = True"

section \<open>The parsed document\<close>

text \<open>
  The tree that \<open>BeautifulSoup(html, 'html.parser')\<close> builds. An attribute value is a
  string, or a list of strings for the multi-valued attributes (\<open>class\<close> above all).
  A \<open>Tag\<close> has a name, its attribute dictionary (an association list, read with
  \<^const>\<open>map_of\<close>) and its \<open>contents\<close>; a \<open>NavigableString\<close> is a text node.
\<close>

datatype attr_value = AStr string | AList "string list"

datatype node =
    Tag string "(string \<times> attr_value) list" "node list"
  | NavigableString string

fun contents :: "node \<Rightarrow> node list" where
  "contents (Tag n a cs) = cs"
| "contents (NavigableString s) = []"

text \<open>\<open>tag.get(key)\<close>: \<open>None\<close> when the attribute is absent (and on a text node here).\<close>

fun tag_get :: "node \<Rightarrow> string \<Rightarrow> attr_value option" where
  "tag_get (Tag n a cs) key = map_of a key"
| "tag_get (NavigableString s) key = None"

text \<open>\<open>tag.descendants\<close>: every node below the tag, in document order.\<close>

fun descendants :: "node \<Rightarrow> node list" where
  "descendants (Tag n a cs) = concat (map (\<lambda>c. c # descendants c) cs)"
| "descendants (NavigableString s) = []"

fun is_tag :: "node \<Rightarrow> bool" where
  "is_tag (Tag n a cs) = True"
| "is_tag (NavigableString s) = False"

fun has_name :: "string \<Rightarrow> node \<Rightarrow> bool" where
  "has_name nm (Tag n a cs) = (n = nm)"
| "has_name nm (NavigableString s) = False"

text \<open>
  The filter \<open>class_=c\<close> for a class name \<open>c\<close> without a space: on a list value, some
  item is \<open>c\<close>; on a string value, the string is \<open>c\<close>. (The library also compares the
  items joined by spaces with \<open>c\<close>, which for a \<open>c\<close> without a space adds nothing.)
\<close>

definition has_class :: "string \<Rightarrow> node \<Rightarrow> bool" where
  "has_class c t =
     (case tag_get t ''class'' of
        None \<Rightarrow> False
      | Some (AList cs) \<Rightarrow> c \<in> set cs
      | Some (AStr s) \<Rightarrow> s = c)"

text \<open>The filter \<open>attr=True\<close>: the attribute is present.\<close>

definition has_attr :: "string \<Rightarrow> node \<Rightarrow> bool" where
  "has_attr key t = (tag_get t key \<noteq> None)"

text \<open>\<open>find_all\<close> lists the matching descendants in document order; \<open>find\<close> gives the
  first of them, or \<open>None\<close>.\<close>

definition find_all :: "(node \<Rightarrow> bool) \<Rightarrow> node \<Rightarrow> node list" where
  "find_all P t = filter P (descendants t)"

definition find_first :: "(node \<Rightarrow> bool) \<Rightarrow> node \<Rightarrow> node option" where
  "find_first P t = List.find P (descendants t)"

text \<open>\<open>tag.get_text(strip=True)\<close>: the text nodes below the tag, each stripped, the
  empty ones dropped, joined.\<close>

fun text_of :: "node \<Rightarrow> string list" where
  "text_of (NavigableString s) = [s]"
| "text_of (Tag n a cs) = []"

definition get_text_strip :: "node \<Rightarrow> string" where
  "get_text_strip t =
     concat (filter (\<lambda>s. s \<noteq> []) (map strip (concat (map text_of (descendants t)))))"

section \<open>The Result Extractor\<close>

text \<open>
  A record of the output is the dict \<open>{'title': ..., 'status': ...}\<close>. The title is a
  string on every path but one: \<open>link.contents[0].strip()\<close> on a child that is a \<open>Tag\<close>
  is the library's \<open>child.find('strip')\<close> called as a function, which is a \<open>TypeError\<close>
  when there is no \<open>strip\<close> element below the child (\<open>None()\<close>) and otherwise the
  \<open>find_all()\<close> of that element, a \<open>ResultSet\<close> of tags.
\<close>

datatype title_value = Str string | ResultSet "node list"

record QuestRecord =
  title :: title_value
  status :: string

text \<open>\<open>img_classes = status_img.get('class', [])\<close> and the test \<open>c in img_classes\<close>.\<close>

fun py_in :: "string \<Rightarrow> attr_value \<Rightarrow> bool" where
  "py_in c (AList cs) = (c \<in> set cs)"
| "py_in c (AStr s) = str_contains s c"

definition img_status :: "node \<Rightarrow> string" where
  "img_status status_img =
     (let img_classes = (case tag_get status_img ''class'' of None \<Rightarrow> AList [] | Some v \<Rightarrow> v)
      in if py_in ''qc-complete'' img_classes then ''complete''
         else if py_in ''qc-not-started'' img_classes then ''not started''
         else ''unknown'')"

text \<open>\<open>link.contents[0].strip()\<close>.\<close>

fun first_content_strip :: "node \<Rightarrow> exn + title_value" where
  "first_content_strip (NavigableString s) = Inr (Str (strip s))"
| "first_content_strip (Tag n a cs) =
     (case find_first (has_name ''strip'') (Tag n a cs) of
        None \<Rightarrow> Inl (TypeError ''NoneType object is not callable'')
      | Some r \<Rightarrow> Inr (ResultSet (find_all is_tag r)))"

text \<open>
  The title:
  \<^verbatim>\<open>
  quest_title = link.get('title', '').strip()
  if not quest_title:
      quest_title = link.contents[0].strip() if link.contents else link.get_text(strip=True)
  \<close>
\<close>

definition quest_title :: "node \<Rightarrow> exn + title_value" where
  "quest_title link =
     (case (case tag_get link ''title'' of None \<Rightarrow> AStr [] | Some v \<Rightarrow> v) of
        AList vs \<Rightarrow> Inl (AttributeError ''list object has no attribute strip'')
      | AStr s \<Rightarrow>
          if strip s \<noteq> [] then Inr (Str (strip s))
          else (case contents link of
                  [] \<Rightarrow> Inr (Str (get_text_strip link))
                | c # cs \<Rightarrow> first_content_strip c))"

text \<open>
  The body of the \<open>try\<close> around one link (lines 179 to 201 of QuestScraper.py, the same
  code in QuestScraperSingelRun.py): \<open>Inl e\<close> when it raises \<open>e\<close>, \<open>Inr None\<close> when it
  appends nothing, \<open>Inr (Some r)\<close> when it appends the record \<open>r\<close>.
\<close>

definition process_link :: "node \<Rightarrow> exn + QuestRecord option" where
  "process_link link =
     (case tag_get link ''href'' of
        None \<Rightarrow> Inl (KeyError ''href'')
      | Some (AList vs) \<Rightarrow> Inl (AttributeError ''list object has no attribute startswith'')
      | Some (AStr href) \<Rightarrow>
          if startswith href ''/w/'' then
            (case find_first (\<lambda>t. has_name ''span'' t \<and> has_class ''rs-qc-icon'' t) link of
               None \<Rightarrow> Inr None
             | Some qc_icon_span \<Rightarrow>
                 (case find_first (has_name ''img'') qc_icon_span of
                    None \<Rightarrow> Inr None
                  | Some status_img \<Rightarrow>
                      (case quest_title link of
                         Inl e \<Rightarrow> Inl e
                       | Inr t \<Rightarrow>
                           if img_status status_img \<noteq> ''unknown''
                           then Inr (Some \<lparr>title = t, status = img_status status_img\<rparr>)
                           else Inr None)))
          else Inr None)"

section \<open>The error log and the trace of a run\<close>

text \<open>
  What a run does to the outside is recorded, in order, as a list of events: the sleeps
  (in milliseconds), the messages handed to \<open>log_error\<close>, the calls made on the
  browser session and the files handed to \<open>json.dump\<close>. A log message is kept as its
  kind and the values formatted into it, without the timestamp; console output is not
  recorded. The log file is taken to be writable, so that every call of \<open>log_error\<close>
  is an entry of the log. Every function below returns the events it adds.
\<close>

datatype log_msg =
    AttemptFailed nat string exn
  | FetchFailed string
  | NoContainers string
  | LinkParseError string exn node
  | MajorParseError string exn
  | SaveIOError string exn
  | SaveUnexpectedError string exn
  | MainLoopError exn
  | SetupError exn
  | LookupTimeout
  | ClickOrWaitError exn
  | InitialTimeout
  | ElementNotFound exn
  | InteractionError exn

datatype By = XPATH | CSS_SELECTOR

type_synonym locator = "By \<times> string"

type_synonym element = nat

datatype driver_call =
    Get string
  | ImplicitlyWait nat
  | UntilVisible nat locator
  | UntilClickable nat locator
  | UntilPresent nat locator
  | Clear element
  | SendKeys element string
  | GetAttribute element string
  | Click element
  | ExecuteScript string element
  | PageSource
  | Quit

datatype event =
    Sleep nat
  | LogError log_msg
  | Call driver_call
  | JsonDump string "QuestRecord list"

definition log_error :: "log_msg \<Rightarrow> event list" where
  "log_error message = [LogError message]"

section \<open>parse_data\<close>

record parse_acc =
  scraped_data :: "QuestRecord list"
  total_links_found :: nat
  parsing_errors :: nat

text \<open>
  The inner loop \<open>for link in quest_links\<close> with its handler
  \<open>except Exception as e_link\<close>, which counts and logs the error and goes on with the
  next link.
\<close>

fun for_links :: "string \<Rightarrow> node list \<Rightarrow> parse_acc \<Rightarrow> (exn + parse_acc) \<times> event list" where
  "for_links username [] acc = (Inr acc, [])"
| "for_links username (link # rest) acc =
     (case process_link link of
        Inr None \<Rightarrow> for_links username rest acc
      | Inr (Some r) \<Rightarrow>
          for_links username rest (acc\<lparr>scraped_data := scraped_data acc @ [r]\<rparr>)
      | Inl e_link \<Rightarrow>
          if is_Exception e_link
          then (case for_links username rest (acc\<lparr>parsing_errors := parsing_errors acc + 1\<rparr>) of
                  (res, evs) \<Rightarrow> (res, log_error (LinkParseError username e_link link) @ evs))
          else (Inl e_link, []))"

text \<open>\<open>container.find_all('a', href=True, title=True)\<close>.\<close>

definition quest_links :: "node \<Rightarrow> node list" where
  "quest_links container =
     find_all (\<lambda>t. has_name ''a'' t \<and> has_attr ''href'' t \<and> has_attr ''title'' t) container"

text \<open>The outer loop \<open>for container in quest_containers\<close>.\<close>

fun for_containers ::
  "string \<Rightarrow> node list \<Rightarrow> parse_acc \<Rightarrow> (exn + parse_acc) \<times> event list" where
  "for_containers username [] acc = (Inr acc, [])"
| "for_containers username (container # rest) acc =
     (case for_links username (quest_links container)
             (acc\<lparr>total_links_found := total_links_found acc + length (quest_links container)\<rparr>) of
        (Inl e, evs) \<Rightarrow> (Inl e, evs)
      | (Inr acc', evs) \<Rightarrow>
          (case for_containers username rest acc' of (res, evs') \<Rightarrow> (res, evs @ evs')))"

text \<open>\<open>soup.find_all('div', class_='div-col')\<close>.\<close>

definition quest_containers :: "node \<Rightarrow> node list" where
  "quest_containers soup = find_all (\<lambda>t. has_name ''div'' t \<and> has_class ''div-col'' t) soup"

text \<open>
  The body of the outer \<open>try\<close> of \<open>parse_data\<close>. The parser is the library's: it is the
  parameter \<open>BeautifulSoup\<close>, which gives the tree of a markup or the message of the
  exception (an \<open>Exception\<close>) it raises on it.
\<close>

definition parse_data_try ::
  "(string \<Rightarrow> string + node) \<Rightarrow> string \<Rightarrow> string \<Rightarrow> (exn + QuestRecord list) \<times> event list" where
  "parse_data_try BeautifulSoup html_content username =
     (case BeautifulSoup html_content of
        Inl m \<Rightarrow> (Inl (Exception m), [])
      | Inr soup \<Rightarrow>
          if quest_containers soup = []
          then (Inr [], log_error (NoContainers username))
          else (case for_containers username (quest_containers soup)
                       \<lparr>scraped_data = [], total_links_found = 0, parsing_errors = 0\<rparr> of
                  (Inl e, evs) \<Rightarrow> (Inl e, evs)
                | (Inr acc, evs) \<Rightarrow> (Inr (scraped_data acc), evs)))"

text \<open>
  \<open>parse_data(html_content, username)\<close>: the guard on an empty markup, the body, and
  the handler \<open>except Exception as e_main\<close>.
\<close>

definition parse_data ::
  "(string \<Rightarrow> string + node) \<Rightarrow> string \<Rightarrow> string \<Rightarrow> (exn + QuestRecord list) \<times> event list" where
  "parse_data BeautifulSoup html_content username =
     (if html_content = [] then (Inr [], [])
      else (case parse_data_try BeautifulSoup html_content username of
              (Inl e_main, evs) \<Rightarrow>
                if is_Exception e_main
                then (Inr [], evs @ log_error (MajorParseError username e_main))
                else (Inl e_main, evs)
            | (Inr data, evs) \<Rightarrow> (Inr data, evs)))"

text \<open>What one link adds to the output, and to the log.\<close>

definition link_records :: "node \<Rightarrow> QuestRecord list" where
  "link_records link = (case process_link link of Inr (Some r) \<Rightarrow> [r] | _ \<Rightarrow> [])"

definition link_errors :: "string \<Rightarrow> node \<Rightarrow> event list" where
  "link_errors username link =
     (case process_link link of
        Inl e \<Rightarrow> log_error (LinkParseError username e link)
      | Inr r \<Rightarrow> [])"

text \<open>The links of a document in the order in which they are visited: container by
  container, and within a container in document order.\<close>

definition all_links :: "node \<Rightarrow> node list" where
  "all_links soup = concat (map quest_links (quest_containers soup))"

text \<open>A parser that answers the tree \<open>soup\<close> on every markup.\<close>

definition parses_to :: "node \<Rightarrow> string \<Rightarrow> string + node" where
  "parses_to soup html_content = Inr soup"

section \<open>The browser session and the file system\<close>

text \<open>
  The browser, the page it shows and the files are the world \<open>'w\<close>. What the Selenium
  session and \<open>json.dump\<close> answer is not in the repository: each method is a field of
  the environment, a function of the world that returns a value or raises, and the
  new world. \<open>WebDriverWait(driver, t).until(condition(locator))\<close> is one such method
  for each of the three conditions used; it raises \<open>TimeoutException\<close> when the time
  is up.
\<close>

record 'w env =
  chrome :: "'w \<Rightarrow> (exn + unit) \<times> 'w"
  drv_get :: "string \<Rightarrow> 'w \<Rightarrow> (exn + unit) \<times> 'w"
  drv_implicitly_wait :: "nat \<Rightarrow> 'w \<Rightarrow> (exn + unit) \<times> 'w"
  until_visible :: "nat \<Rightarrow> locator \<Rightarrow> 'w \<Rightarrow> (exn + element) \<times> 'w"
  until_clickable :: "nat \<Rightarrow> locator \<Rightarrow> 'w \<Rightarrow> (exn + element) \<times> 'w"
  until_present :: "nat \<Rightarrow> locator \<Rightarrow> 'w \<Rightarrow> (exn + element) \<times> 'w"
  elem_clear :: "element \<Rightarrow> 'w \<Rightarrow> (exn + unit) \<times> 'w"
  elem_send_keys :: "element \<Rightarrow> string \<Rightarrow> 'w \<Rightarrow> (exn + unit) \<times> 'w"
  elem_get_attribute :: "element \<Rightarrow> string \<Rightarrow> 'w \<Rightarrow> (exn + string option) \<times> 'w"
  elem_click :: "element \<Rightarrow> 'w \<Rightarrow> (exn + unit) \<times> 'w"
  drv_execute_script :: "string \<Rightarrow> element \<Rightarrow> 'w \<Rightarrow> (exn + unit) \<times> 'w"
  drv_page_source :: "'w \<Rightarrow> (exn + string) \<times> 'w"
  drv_quit :: "'w \<Rightarrow> (exn + unit) \<times> 'w"
  json_dump :: "string \<Rightarrow> QuestRecord list \<Rightarrow> 'w \<Rightarrow> (exn + unit) \<times> 'w"
  html_parser :: "string \<Rightarrow> string + node"

text \<open>
  A piece of the program that acts on the world: from the world it gives the value it
  returns or the exception it raises, the new world, and the events it adds.
\<close>

type_synonym ('a, 'w) prog = "'w \<Rightarrow> (exn + 'a) \<times> 'w \<times> event list"

definition ret :: "'a \<Rightarrow> ('a, 'w) prog" where
  "ret x w = (Inr x, w, [])"

definition raise :: "exn \<Rightarrow> ('a, 'w) prog" where
  "raise e w = (Inl e, w, [])"

text \<open>One statement after another: an exception of the first skips the second.\<close>

definition then_do :: "('a, 'w) prog \<Rightarrow> ('a \<Rightarrow> ('b, 'w) prog) \<Rightarrow> ('b, 'w) prog" where
  "then_do m f w =
     (case m w of
        (Inl e, w', evs) \<Rightarrow> (Inl e, w', evs)
      | (Inr x, w', evs) \<Rightarrow> (case f x w' of (r, w'', evs') \<Rightarrow> (r, w'', evs @ evs')))"

definition call :: "driver_call \<Rightarrow> ('w \<Rightarrow> (exn + 'a) \<times> 'w) \<Rightarrow> ('a, 'w) prog" where
  "call c method w = (case method w of (r, w') \<Rightarrow> (r, w', [Call c]))"

definition sleep :: "nat \<Rightarrow> (unit, 'w) prog" where
  "sleep ms w = (Inr (), w, [Sleep ms])"

definition do_log :: "log_msg \<Rightarrow> (unit, 'w) prog" where
  "do_log message w = (Inr (), w, log_error message)"

text \<open>\<open>try: m except C as e: handler\<close>, where \<open>catches\<close> says which exceptions are
  instances of \<open>C\<close>; the others pass.\<close>

definition try_except ::
  "('a, 'w) prog \<Rightarrow> (exn \<Rightarrow> bool) \<Rightarrow> (exn \<Rightarrow> ('a, 'w) prog) \<Rightarrow> ('a, 'w) prog" where
  "try_except m catches handler w =
     (case m w of
        (Inl e, w', evs) \<Rightarrow>
          if catches e
          then (case handler e w' of (r, w'', evs') \<Rightarrow> (r, w'', evs @ evs'))
          else (Inl e, w', evs)
      | (Inr x, w', evs) \<Rightarrow> (Inr x, w', evs))"

text \<open>\<open>try: m finally: final\<close>: \<open>final\<close> runs on every way out of \<open>m\<close>; what \<open>m\<close>
  returned or raised stands unless \<open>final\<close> raises.\<close>

definition try_finally :: "('a, 'w) prog \<Rightarrow> (unit, 'w) prog \<Rightarrow> ('a, 'w) prog" where
  "try_finally m final w =
     (case m w of
        (r, w', evs) \<Rightarrow>
          (case final w' of
             (Inl e, w'', evs') \<Rightarrow> (Inl e, w'', evs @ evs')
           | (Inr u, w'', evs') \<Rightarrow> (r, w'', evs @ evs')))"

section \<open>The Interaction Driver\<close>

definition TARGET_URL :: string where
  "TARGET_URL = ''https://oldschool.runescape.wiki/w/RuneScape:WikiSync/Tracker''"

definition username_input_selector :: locator where
  "username_input_selector = (XPATH, ''//input[@placeholder='Display name']'')"

definition fetch_button_selector :: locator where
  "fetch_button_selector = (XPATH, ''//button[contains(., 'Look up')]'')"

definition results_container_selector :: locator where
  "results_container_selector = (CSS_SELECTOR, ''div.div-col'')"

definition wait_time_long :: nat where
  "wait_time_long = 45"

definition wait_time_short :: nat where
  "wait_time_short = 20"

text \<open>The click on the button, with its fallback:
  \<^verbatim>\<open>
  try: fetch_button.click()
  except ElementClickInterceptedException:
      driver.execute_script("arguments[0].click();", fetch_button)
  \<close>
\<close>

definition click_fetch_button :: "'w env \<Rightarrow> element \<Rightarrow> (unit, 'w) prog" where
  "click_fetch_button d fetch_button =
     try_except (call (Click fetch_button) (elem_click d fetch_button))
       (\<lambda>e. e = ElementClickInterceptedException)
       (\<lambda>e. call (ExecuteScript ''arguments[0].click();'' fetch_button)
              (drv_execute_script d ''arguments[0].click();'' fetch_button))"

text \<open>The body of the \<open>try\<close> of one attempt of the batch driver (QuestScraper.py,
  lines 85 to 133).\<close>

definition attempt_try :: "'w env \<Rightarrow> string \<Rightarrow> string \<Rightarrow> (string, 'w) prog" where
  "attempt_try d url username =
     then_do (call (Get url) (drv_get d url)) (\<lambda>_.
     then_do (call (UntilVisible wait_time_long username_input_selector)
                (until_visible d wait_time_long username_input_selector)) (\<lambda>username_input.
     then_do (call (Clear username_input) (elem_clear d username_input)) (\<lambda>_.
     then_do (sleep 500) (\<lambda>_.
     then_do (call (SendKeys username_input username)
                (elem_send_keys d username_input username)) (\<lambda>_.
     then_do (sleep 500) (\<lambda>_.
     then_do (call (GetAttribute username_input ''value'')
                (elem_get_attribute d username_input ''value'')) (\<lambda>entered_value.
     if entered_value \<noteq> Some username
     then raise (Exception ''Username input verification failed'')
     else
     then_do (call (UntilClickable wait_time_short fetch_button_selector)
                (until_clickable d wait_time_short fetch_button_selector)) (\<lambda>fetch_button.
     then_do (click_fetch_button d fetch_button) (\<lambda>_.
     then_do (call (UntilPresent wait_time_long results_container_selector)
                (until_present d wait_time_long results_container_selector)) (\<lambda>_.
     then_do (sleep 5000) (\<lambda>_.
     call PageSource (drv_page_source d))))))))))))"

text \<open>
  The loop \<open>for attempt in range(attempts)\<close> of the batch driver, with the handler
  \<open>except Exception as e\<close> of an attempt: it logs the failure, then sleeps two seconds
  and goes on, or returns \<open>None\<close> after the last attempt.
\<close>

fun fetch_attempts ::
  "'w env \<Rightarrow> string \<Rightarrow> string \<Rightarrow> nat \<Rightarrow> nat list \<Rightarrow> (string option, 'w) prog" where
  "fetch_attempts d url username attempts [] w = (Inr None, w, [])"
| "fetch_attempts d url username attempts (attempt # rest) w =
     (case attempt_try d url username w of
        (Inr page_source, w', evs) \<Rightarrow> (Inr (Some page_source), w', evs)
      | (Inl e, w', evs) \<Rightarrow>
          if is_Exception e
          then (if attempt < attempts - 1
                then (case fetch_attempts d url username attempts rest w' of
                        (r, w'', evs') \<Rightarrow>
                          (r, w'', evs @ log_error (AttemptFailed (attempt + 1) username e)
                                     @ [Sleep 2000] @ evs'))
                else (Inr None, w', evs @ log_error (AttemptFailed (attempt + 1) username e)))
          else (Inl e, w', evs))"

definition fetch_and_interact :: "'w env \<Rightarrow> string \<Rightarrow> string \<Rightarrow> (string option, 'w) prog" where
  "fetch_and_interact d url username = fetch_attempts d url username 3 [0..<3]"

text \<open>
  The driver of the single-user script (QuestScraperSingelRun.py, \<open>fetch_and_interact\<close>):
  one pass, an inner \<open>try\<close> around the button and the wait for the results, and
  handlers that log and return \<open>None\<close>.
\<close>

definition lookup_try :: "'w env \<Rightarrow> (unit, 'w) prog" where
  "lookup_try d =
     then_do (call (UntilClickable wait_time_short fetch_button_selector)
                (until_clickable d wait_time_short fetch_button_selector)) (\<lambda>fetch_button.
     then_do (click_fetch_button d fetch_button) (\<lambda>_.
     then_do (call (UntilPresent wait_time_long results_container_selector)
                (until_present d wait_time_long results_container_selector)) (\<lambda>_.
     sleep 5000)))"

definition fetch_and_interact_single ::
  "'w env \<Rightarrow> string \<Rightarrow> string \<Rightarrow> (string option, 'w) prog" where
  "fetch_and_interact_single d url username =
     try_except
       (then_do (call (Get url) (drv_get d url)) (\<lambda>_.
        then_do (call (ImplicitlyWait 5) (drv_implicitly_wait d 5)) (\<lambda>_.
        then_do (call (UntilVisible wait_time_long username_input_selector)
                   (until_visible d wait_time_long username_input_selector)) (\<lambda>username_input.
        then_do (call (Clear username_input) (elem_clear d username_input)) (\<lambda>_.
        then_do (sleep 500) (\<lambda>_.
        then_do (call (SendKeys username_input username)
                   (elem_send_keys d username_input username)) (\<lambda>_.
        then_do (sleep 500) (\<lambda>_.
        then_do (try_except (then_do (lookup_try d) (\<lambda>_. ret True)) is_Exception
                   (\<lambda>e. then_do (do_log (if e = TimeoutException then LookupTimeout
                                           else ClickOrWaitError e)) (\<lambda>_. ret False)))
          (\<lambda>looked_up.
        if looked_up
        then then_do (call PageSource (drv_page_source d)) (\<lambda>page_source. ret (Some page_source))
        else ret None)))))))))
       is_Exception
       (\<lambda>e. then_do (do_log (if e = TimeoutException then InitialTimeout
                               else if e = NoSuchElementException then ElementNotFound e
                               else InteractionError e)) (\<lambda>_. ret None))"

section \<open>The Batch Orchestrator\<close>

text \<open>
  \<^verbatim>\<open>safe_username = "".join(c if c.isalnum() or c in ('-', '_') else '_' for c in username)\<close>
\<close>

definition safe_username :: "string \<Rightarrow> string" where
  "safe_username username =
     map (\<lambda>c. if isalnum c \<or> c \<in> set [CHR ''-'', CHR ''_''] then c else CHR ''_'') username"

text \<open>\<open>OUTPUT_FILENAME_TEMPLATE.format(username=safe_username)\<close>.\<close>

definition output_file :: "string \<Rightarrow> string" where
  "output_file username = safe_username username @ ''_quest_status.json''"

fun is_IOError :: "exn \<Rightarrow> bool" where
  "is_IOError (IOError m) = True"
| "is_IOError _ = False"

text \<open>\<open>save_to_json(data, filename)\<close>: nothing is written for an empty list.\<close>

definition save_to_json :: "'w env \<Rightarrow> QuestRecord list \<Rightarrow> string \<Rightarrow> (unit, 'w) prog" where
  "save_to_json d data filename =
     (if data = [] then ret ()
      else try_except
             (\<lambda>w. case json_dump d filename data w of (r, w') \<Rightarrow> (r, w', [JsonDump filename data]))
             is_Exception
             (\<lambda>e. if is_IOError e then do_log (SaveIOError filename e)
                   else do_log (SaveUnexpectedError filename e)))"

text \<open>The body of the loop over the usernames (QuestScraper.py, lines 295 to 310).\<close>

definition process_user :: "'w env \<Rightarrow> string \<Rightarrow> (unit, 'w) prog" where
  "process_user d username =
     then_do (fetch_and_interact d TARGET_URL username) (\<lambda>html_after_interaction.
     then_do
       (case html_after_interaction of
          None \<Rightarrow> do_log (FetchFailed username)
        | Some html \<Rightarrow>
            if html = [] then do_log (FetchFailed username)
            else then_do (\<lambda>w. case parse_data (html_parser d) html username of
                                 (r, evs) \<Rightarrow> (r, w, evs))
                   (\<lambda>extracted_data. save_to_json d extracted_data (output_file username)))
       (\<lambda>_. sleep 2000))"

fun for_usernames :: "'w env \<Rightarrow> string list \<Rightarrow> (unit, 'w) prog" where
  "for_usernames d [] w = (Inr (), w, [])"
| "for_usernames d (username # rest) w =
     (case process_user d username w of
        (Inl e, w', evs) \<Rightarrow> (Inl e, w', evs)
      | (Inr u, w', evs) \<Rightarrow>
          (case for_usernames d rest w' of (r, w'', evs') \<Rightarrow> (r, w'', evs @ evs')))"

fun is_WebDriverException :: "exn \<Rightarrow> bool" where
  "is_WebDriverException (WebDriverException m) = True"
| "is_WebDriverException TimeoutException = True"
| "is_WebDriverException NoSuchElementException = True"
| "is_WebDriverException ElementClickInterceptedException = True"
| "is_WebDriverException _ = False"

text \<open>\<open>setup_driver()\<close>: \<open>True\<close> for the driver, \<open>False\<close> for \<open>None\<close>.\<close>

definition setup_driver :: "'w env \<Rightarrow> (bool, 'w) prog" where
  "setup_driver d w =
     (case chrome d w of
        (Inr u, w') \<Rightarrow> (Inr True, w', [])
      | (Inl e, w') \<Rightarrow>
          if is_WebDriverException e then (Inr False, w', [])
          else if is_Exception e then (Inr False, w', log_error (SetupError e))
          else (Inl e, w', []))"

text \<open>The run once the session exists: the loop, the handler
  \<open>except Exception as e_main_exec\<close> and \<open>finally: driver.quit()\<close>.\<close>

definition run_session :: "'w env \<Rightarrow> string list \<Rightarrow> (unit, 'w) prog" where
  "run_session d usernames =
     try_finally
       (try_except (for_usernames d usernames) is_Exception (\<lambda>e. do_log (MainLoopError e)))
       (call Quit (drv_quit d))"

text \<open>The main block of the batch script, from the loaded list of usernames on.\<close>

definition main :: "'w env \<Rightarrow> string list \<Rightarrow> (unit, 'w) prog" where
  "main d usernames =
     (if usernames = [] then ret ()
      else then_do (setup_driver d) (\<lambda>driver.
             if driver then run_session d usernames else ret ()))"

section \<open>Notions used in the statements\<close>

text \<open>\<open>emits P m\<close>: every event that \<open>m\<close> adds satisfies \<open>P\<close>, from whatever world it
  starts.\<close>

definition emits :: "(event \<Rightarrow> bool) \<Rightarrow> ('a, 'w) prog \<Rightarrow> bool" where
  "emits P m = (\<forall>w. list_all P (snd (snd (m w))))"

text \<open>The events of the interaction with the page: sleeps and calls on the session
  other than \<open>quit\<close>.\<close>

fun interaction_event :: "event \<Rightarrow> bool" where
  "interaction_event (Sleep n) = True"
| "interaction_event (Call c) = (c \<noteq> Quit)"
| "interaction_event _ = False"

fun is_attempt_failure :: "string \<Rightarrow> event \<Rightarrow> bool" where
  "is_attempt_failure username (LogError (AttemptFailed n u e)) = (u = username)"
| "is_attempt_failure username _ = False"

fun is_JsonDump :: "event \<Rightarrow> bool" where
  "is_JsonDump (JsonDump f data) = True"
| "is_JsonDump _ = False"

fun is_LogError :: "event \<Rightarrow> bool" where
  "is_LogError (LogError m) = True"
| "is_LogError _ = False"

text \<open>The status image the code looks at: the first \<open>img\<close> below the first \<open>span\<close> of
  class \<open>rs-qc-icon\<close> below the link.\<close>

definition status_img_of :: "node \<Rightarrow> node option" where
  "status_img_of link =
     (case find_first (\<lambda>t. has_name ''span'' t \<and> has_class ''rs-qc-icon'' t) link of
        None \<Rightarrow> None
      | Some qc_icon_span \<Rightarrow> find_first (has_name ''img'') qc_icon_span)"

definition wiki_href :: "node \<Rightarrow> bool" where
  "wiki_href link =
     (case tag_get link ''href'' of Some (AStr href) \<Rightarrow> startswith href ''/w/'' | _ \<Rightarrow> False)"

text \<open>An element has the class \<open>c\<close>: its class list includes \<open>c\<close> (when the class
  attribute is held as one string, \<open>c\<close> occurs in it).\<close>

definition class_includes :: "string \<Rightarrow> node \<Rightarrow> bool" where
  "class_includes c t =
     (case tag_get t ''class'' of
        None \<Rightarrow> False
      | Some (AList cs) \<Rightarrow> c \<in> set cs
      | Some (AStr s) \<Rightarrow> str_contains s c)"

text \<open>A quest anchor: the \<open>href\<close> is a string that starts with \<open>/w/\<close>, and the first
  \<open>img\<close> below the first \<open>span\<close> of class \<open>rs-qc-icon\<close> has the class \<open>qc-complete\<close> or
  the class \<open>qc-not-started\<close>.\<close>

definition quest_anchor :: "node \<Rightarrow> bool" where
  "quest_anchor link =
     (wiki_href link \<and>
      (case status_img_of link of
         None \<Rightarrow> False
       | Some status_img \<Rightarrow>
           class_includes ''qc-complete'' status_img
           \<or> class_includes ''qc-not-started'' status_img))"

text \<open>The \<open>title\<close> attribute, stripped; empty when it is absent or not a string.\<close>

definition title_attr :: "node \<Rightarrow> string" where
  "title_attr link = (case tag_get link ''title'' of Some (AStr s) \<Rightarrow> strip s | _ \<Rightarrow> [])"

text \<open>The record expected of a quest anchor: the trimmed title attribute, and
  \<open>complete\<close> for the class \<open>qc-complete\<close>, \<open>not started\<close> for the class
  \<open>qc-not-started\<close> without it.\<close>

definition record_of :: "node \<Rightarrow> QuestRecord" where
  "record_of link =
     \<lparr>title = Str (title_attr link),
      status = (case status_img_of link of
                  None \<Rightarrow> ''not started''
                | Some status_img \<Rightarrow>
                    if class_includes ''qc-complete'' status_img then ''complete''
                    else ''not started'')\<rparr>"

text \<open>
  The well-formed quest anchor in the words of the specification: an \<open>href\<close> starting
  with \<open>/w/\<close>, a \<open>title\<close> attribute, and a nested \<open>rs-qc-icon\<close> span containing an
  \<open>img\<close> whose class list includes \<open>qc-complete\<close> or \<open>qc-not-started\<close>.
\<close>

definition spec_well_formed_anchor :: "node \<Rightarrow> bool" where
  "spec_well_formed_anchor link =
     (wiki_href link \<and> has_attr ''title'' link \<and>
      list_ex (\<lambda>sp. has_name ''span'' sp \<and> has_class ''rs-qc-icon'' sp \<and>
                 list_ex (\<lambda>im. has_name ''img'' im \<and>
                            (case tag_get im ''class'' of
                               Some (AList cs) \<Rightarrow>
                                 ''qc-complete'' \<in> set cs \<or> ''qc-not-started'' \<in> set cs
                             | _ \<Rightarrow> False))
                   (descendants sp))
        (descendants link))"

text \<open>A string without leading or trailing whitespace.\<close>

definition trimmed :: "string \<Rightarrow> bool" where
  "trimmed s = (s = [] \<or> (\<not> isspace (hd s) \<and> \<not> isspace (last s)))"

text \<open>The sanitizer in the words of the specification: every character outside
  \<open>[A-Za-z0-9_-]\<close> becomes an underscore.\<close>

definition ascii_allowed :: "char \<Rightarrow> bool" where
  "ascii_allowed c =
     (let n = (of_char c :: nat)
      in (48 \<le> n \<and> n \<le> 57) \<or> (65 \<le> n \<and> n \<le> 90) \<or> (97 \<le> n \<and> n \<le> 122)
         \<or> c = CHR ''_'' \<or> c = CHR ''-'')"

definition spec_sanitize :: "string \<Rightarrow> string" where
  "spec_sanitize username = map (\<lambda>c. if ascii_allowed c then c else CHR ''_'') username"

text \<open>The events of three attempts that fail one after the other: each is logged,
  and two seconds of sleep separate it from the next.\<close>

definition three_failures ::
  "string \<Rightarrow> exn \<Rightarrow> event list \<Rightarrow> exn \<Rightarrow> event list \<Rightarrow> exn \<Rightarrow> event list \<Rightarrow> event list" where
  "three_failures username e1 evs1 e2 evs2 e3 evs3 =
     evs1 @ [LogError (AttemptFailed 1 username e1), Sleep 2000]
     @ evs2 @ [LogError (AttemptFailed 2 username e2), Sleep 2000]
     @ evs3 @ [LogError (AttemptFailed 3 username e3)]"

text \<open>The two calls that only one of the drivers makes.\<close>

fun is_value_read :: "event \<Rightarrow> bool" where
  "is_value_read (Call (GetAttribute el a)) = True"
| "is_value_read _ = False"

fun is_implicit_wait :: "event \<Rightarrow> bool" where
  "is_implicit_wait (Call (ImplicitlyWait n)) = True"
| "is_implicit_wait _ = False"

text \<open>The events that both drivers produce: the sleeps and the calls other than the
  two above and \<open>quit\<close>.\<close>

fun common_event :: "event \<Rightarrow> bool" where
  "common_event (Sleep n) = True"
| "common_event (Call Quit) = False"
| "common_event (Call (ImplicitlyWait n)) = False"
| "common_event (Call (GetAttribute el a)) = False"
| "common_event (Call c) = True"
| "common_event _ = False"

text \<open>
  The run of the single-user driver against one attempt of the batch driver: the first
  returns the markup that the attempt returns, and \<open>None\<close> where the attempt raises an
  \<open>Exception\<close>; both leave the same world; and they make the same calls and sleeps,
  the implicit wait of the one and the read of the value of the other set aside.
\<close>

definition same_outcome ::
  "(exn + string option) \<times> 'w \<times> event list \<Rightarrow> (exn + string) \<times> 'w \<times> event list \<Rightarrow> bool" where
  "same_outcome single attempt =
     (fst single = (case fst attempt of
                      Inr page_source \<Rightarrow> Inr (Some page_source)
                    | Inl e \<Rightarrow> if is_Exception e then Inr None else Inl e)
      \<and> fst (snd single) = fst (snd attempt)
      \<and> filter (\<lambda>ev. interaction_event ev \<and> \<not> is_implicit_wait ev) (snd (snd single))
          = filter (\<lambda>ev. \<not> is_value_read ev) (snd (snd attempt)))"

section \<open>Example documents and environments\<close>

definition img_of_class :: "string list \<Rightarrow> node" where
  "img_of_class cs = Tag ''img'' [(''class'', AList cs)] []"

definition icon_span :: "node list \<Rightarrow> node" where
  "icon_span xs = Tag ''span'' [(''class'', AList [''rs-qc-icon''])] xs"

definition anchor :: "string \<Rightarrow> string \<Rightarrow> node list \<Rightarrow> node" where
  "anchor href t xs = Tag ''a'' [(''href'', AStr href), (''title'', AStr t)] xs"

definition page_of :: "node list \<Rightarrow> node" where
  "page_of xs = Tag ''[document]'' [] [Tag ''div'' [(''class'', AList [''div-col''])] xs]"

text \<open>The page of the specification's scenario: two quests, one complete and one not
  started.\<close>

definition scenario_page :: node where
  "scenario_page =
     page_of
       [anchor ''/w/Cook%27s_Assistant'' ''Cook's Assistant''
          [icon_span [img_of_class [''qc-complete'']], NavigableString ''Cook's Assistant''],
        anchor ''/w/Demon_Slayer'' ''Demon Slayer''
          [icon_span [img_of_class [''qc-not-started'']], NavigableString ''Demon Slayer'']]"

text \<open>A link whose icon span holds two images, the first of an unknown class.\<close>

definition two_images_link :: node where
  "two_images_link =
     anchor ''/w/Dragon_Slayer_I'' ''Dragon Slayer I''
       [icon_span [img_of_class [''qc-icon''], img_of_class [''qc-complete'']]]"

text \<open>A link to an article without a status icon.\<close>

definition plain_link :: node where
  "plain_link = anchor ''/w/Quests'' ''Quests'' [NavigableString ''Quests'']"

text \<open>A link with an empty title whose first child is a blank text node.\<close>

definition blank_title_link :: node where
  "blank_title_link =
     anchor ''/w/Demon_Slayer'' [] [NavigableString '' '', icon_span [img_of_class [''qc-not-started'']]]"

text \<open>A link with an empty title whose first child is the icon span.\<close>

definition untitled_link :: node where
  "untitled_link =
     anchor ''/w/Cook%27s_Assistant'' []
       [icon_span [img_of_class [''qc-complete'']], NavigableString ''Cook's Assistant'']"

text \<open>A link whose status image carries both classes.\<close>

definition both_classes_link :: node where
  "both_classes_link =
     anchor ''/w/Imp_Catcher'' ''Imp Catcher''
       [icon_span [img_of_class [''qc-not-started'', ''qc-complete'']]]"

text \<open>The same with an empty title, the icon span being the first child.\<close>

definition both_untitled_link :: node where
  "both_untitled_link =
     anchor ''/w/Imp_Catcher'' []
       [icon_span [img_of_class [''qc-not-started'', ''qc-complete'']],
        NavigableString ''Imp Catcher'']"

text \<open>A link whose status image has neither known class, with an empty title and the
  icon span as first child.\<close>

definition unknown_untitled_link :: node where
  "unknown_untitled_link =
     anchor ''/w/Dragon_Slayer_II'' []
       [icon_span [img_of_class [''qc-in-progress'']], NavigableString ''Dragon Slayer II'']"

definition empty_page :: node where
  "empty_page = Tag ''[document]'' [] []"

text \<open>
  An environment with a trivial world in which every call succeeds: the input reads
  back \<open>echo\<close>, the session shows the markup \<open>page\<close>, which parses to \<open>soup\<close>.
\<close>

definition calm_env :: "string option \<Rightarrow> string \<Rightarrow> node \<Rightarrow> unit env" where
  "calm_env echo page soup =
     \<lparr>chrome = (\<lambda>w. (Inr (), w)),
      drv_get = (\<lambda>url w. (Inr (), w)),
      drv_implicitly_wait = (\<lambda>n w. (Inr (), w)),
      until_visible = (\<lambda>t l w. (Inr 1, w)),
      until_clickable = (\<lambda>t l w. (Inr 2, w)),
      until_present = (\<lambda>t l w. (Inr 3, w)),
      elem_clear = (\<lambda>el w. (Inr (), w)),
      elem_send_keys = (\<lambda>el keys w. (Inr (), w)),
      elem_get_attribute = (\<lambda>el a w. (Inr echo, w)),
      elem_click = (\<lambda>el w. (Inr (), w)),
      drv_execute_script = (\<lambda>script el w. (Inr (), w)),
      drv_page_source = (\<lambda>w. (Inr page, w)),
      drv_quit = (\<lambda>w. (Inr (), w)),
      json_dump = (\<lambda>f data w. (Inr (), w)),
      html_parser = parses_to soup\<rparr>"

text \<open>
  An environment whose world is the text in the input field: \<open>clear\<close> empties it,
  \<open>send_keys\<close> appends the keys, and the value read back is the text; every other call
  succeeds as in the calm one.
\<close>

definition field_env :: "string \<Rightarrow> node \<Rightarrow> string env" where
  "field_env page soup =
     \<lparr>chrome = (\<lambda>w. (Inr (), w)),
      drv_get = (\<lambda>url w. (Inr (), w)),
      drv_implicitly_wait = (\<lambda>n w. (Inr (), w)),
      until_visible = (\<lambda>t l w. (Inr 1, w)),
      until_clickable = (\<lambda>t l w. (Inr 2, w)),
      until_present = (\<lambda>t l w. (Inr 3, w)),
      elem_clear = (\<lambda>el w. (Inr (), [])),
      elem_send_keys = (\<lambda>el keys w. (Inr (), w @ keys)),
      elem_get_attribute = (\<lambda>el a w. (Inr (Some w), w)),
      elem_click = (\<lambda>el w. (Inr (), w)),
      drv_execute_script = (\<lambda>script el w. (Inr (), w)),
      drv_page_source = (\<lambda>w. (Inr page, w)),
      drv_quit = (\<lambda>w. (Inr (), w)),
      json_dump = (\<lambda>f data w. (Inr (), w)),
      html_parser = parses_to soup\<rparr>"

text \<open>The same, but the results container never appears: the wait for it times out.\<close>

definition timeout_env :: "string option \<Rightarrow> string \<Rightarrow> node \<Rightarrow> unit env" where
  "timeout_env echo page soup =
     (calm_env echo page soup)\<lparr>until_present := (\<lambda>t l w. (Inl TimeoutException, w))\<rparr>"

text \<open>The same as the calm one, but the run is interrupted from the keyboard while it
  waits for the input.\<close>

definition interrupted_env :: "string option \<Rightarrow> string \<Rightarrow> node \<Rightarrow> unit env" where
  "interrupted_env echo page soup =
     (calm_env echo page soup)\<lparr>until_visible := (\<lambda>t l w. (Inl KeyboardInterrupt, w))\<rparr>"

section \<open>Helper lemmas: extraction\<close>

lemma first_content_strip_is_Exception:
  "first_content_strip c = Inl e \<Longrightarrow> is_Exception e"
  by (cases c) (auto split: option.splits)

lemma quest_title_is_Exception: "quest_title link = Inl e \<Longrightarrow> is_Exception e"
  by (auto simp: quest_title_def split: option.splits attr_value.splits if_splits list.splits
        dest: first_content_strip_is_Exception)

lemma process_link_is_Exception: "process_link link = Inl e \<Longrightarrow> is_Exception e"
  by (auto simp: process_link_def split: option.splits attr_value.splits if_splits sum.splits
        dest: quest_title_is_Exception)

lemma for_links_eq:
  "for_links username links acc =
     (Inr (acc\<lparr>scraped_data := scraped_data acc @ concat (map link_records links),
               parsing_errors :=
                 parsing_errors acc + length (concat (map (link_errors username) links))\<rparr>),
      concat (map (link_errors username) links))"
proof (induction links arbitrary: acc)
  case Nil
  show ?case by simp
next
  case (Cons link rest)
  show ?case
  proof (cases "process_link link")
    case (Inl e)
    then have "is_Exception e" by (rule process_link_is_Exception)
    then show ?thesis using Inl
      by (simp add: Cons link_records_def link_errors_def log_error_def)
  next
    case (Inr r)
    then show ?thesis
      by (cases r) (simp_all add: Cons link_records_def link_errors_def)
  qed
qed

lemma for_containers_eq:
  "for_containers username cs acc =
     (Inr (acc\<lparr>scraped_data :=
                 scraped_data acc @ concat (map link_records (concat (map quest_links cs))),
               total_links_found :=
                 total_links_found acc + length (concat (map quest_links cs)),
               parsing_errors :=
                 parsing_errors acc
                   + length (concat (map (link_errors username) (concat (map quest_links cs))))\<rparr>),
      concat (map (link_errors username) (concat (map quest_links cs))))"
proof (induction cs arbitrary: acc)
  case Nil
  show ?case by simp
next
  case (Cons c cs)
  show ?case by (simp add: for_links_eq Cons)
qed

lemma parse_data_eq:
  assumes "html_content \<noteq> []" and "BeautifulSoup html_content = Inr soup"
  shows "parse_data BeautifulSoup html_content username =
     (Inr (concat (map link_records (all_links soup))),
      if quest_containers soup = [] then log_error (NoContainers username)
      else concat (map (link_errors username) (all_links soup)))"
  using assms
  by (simp add: parse_data_def parse_data_try_def all_links_def for_containers_eq)

lemma parse_data_returns:
  "\<exists>data evs. parse_data BeautifulSoup html_content username = (Inr data, evs)"
proof (cases "html_content = []")
  case True
  then show ?thesis by (simp add: parse_data_def)
next
  case False
  show ?thesis
  proof (cases "BeautifulSoup html_content")
    case (Inl m)
    then show ?thesis using False by (simp add: parse_data_def parse_data_try_def)
  next
    case (Inr soup)
    then show ?thesis using False parse_data_eq [of html_content BeautifulSoup soup] by simp
  qed
qed

lemma img_status_class:
  "img_status status_img =
     (if class_includes ''qc-complete'' status_img then ''complete''
      else if class_includes ''qc-not-started'' status_img then ''not started''
      else ''unknown'')"
  by (simp add: img_status_def class_includes_def split: option.splits attr_value.splits)

lemma process_link_quest_anchor:
  "quest_anchor link \<Longrightarrow> title_attr link \<noteq> [] \<Longrightarrow> process_link link = Inr (Some (record_of link))"
  by (auto simp: quest_anchor_def title_attr_def process_link_def record_of_def wiki_href_def
      status_img_of_def quest_title_def img_status_class
      split: option.splits attr_value.splits if_splits)

lemma link_records_not_anchor: "\<not> quest_anchor link \<Longrightarrow> link_records link = []"
  by (auto simp: quest_anchor_def link_records_def process_link_def wiki_href_def
      status_img_of_def img_status_class
      split: option.splits attr_value.splits if_splits sum.splits)

lemma link_records_anchor:
  "quest_anchor link \<Longrightarrow> title_attr link \<noteq> [] \<Longrightarrow> link_records link = [record_of link]"
  by (simp add: link_records_def process_link_quest_anchor)

lemma records_of_links:
  "\<forall>link \<in> set links. quest_anchor link \<longrightarrow> title_attr link \<noteq> [] \<Longrightarrow>
   concat (map link_records links) = map record_of (filter quest_anchor links)"
proof (induction links)
  case Nil
  show ?case by simp
next
  case (Cons l links)
  then have ih: "concat (map link_records links) = map record_of (filter quest_anchor links)"
    by simp
  show ?case
  proof (cases "quest_anchor l")
    case True
    with Cons.prems have "title_attr l \<noteq> []" by simp
    with True ih show ?thesis by (simp add: link_records_anchor)
  next
    case False
    with ih show ?thesis by (simp add: link_records_not_anchor)
  qed
qed

lemma img_status_cases:
  "img_status im = ''complete'' \<or> img_status im = ''not started'' \<or> img_status im = ''unknown''"
  by (simp add: img_status_def Let_def)

lemma quest_anchor_status:
  "status (record_of link) = ''complete'' \<or> status (record_of link) = ''not started''"
  by (simp add: record_of_def split: option.splits)

lemma strip_last: "strip s \<noteq> [] \<Longrightarrow> \<not> isspace (last (strip s))"
proof -
  assume ne: "strip s \<noteq> []"
  let ?t = "dropWhile isspace (rev (dropWhile isspace s))"
  from ne have t: "?t \<noteq> []" by (simp add: strip_def)
  then have "\<not> isspace (hd ?t)" by (rule hd_dropWhile)
  moreover have "last (strip s) = hd ?t" using t by (simp add: strip_def last_rev)
  ultimately show ?thesis by simp
qed

lemma strip_hd: "strip s \<noteq> [] \<Longrightarrow> \<not> isspace (hd (strip s))"
proof -
  assume ne: "strip s \<noteq> []"
  let ?u = "dropWhile isspace s"
  have split: "rev ?u = takeWhile isspace (rev ?u) @ dropWhile isspace (rev ?u)" by simp
  then have "?u = rev (dropWhile isspace (rev ?u)) @ rev (takeWhile isspace (rev ?u))"
    by (metis rev_append rev_rev_ident)
  then have u: "?u = strip s @ rev (takeWhile isspace (rev ?u))" by (simp add: strip_def)
  with ne have "hd ?u = hd (strip s)" by (metis hd_append2)
  moreover from u ne have "?u \<noteq> []" by (metis append_is_Nil_conv)
  then have "\<not> isspace (hd ?u)" by (rule hd_dropWhile)
  ultimately show ?thesis by simp
qed

lemma trimmed_strip: "trimmed (strip s)"
  by (auto simp: trimmed_def dest: strip_hd strip_last)

lemma trimmed_Nil: "trimmed []"
  by (simp add: trimmed_def)

lemma get_text_strip_no_contents: "contents link = [] \<Longrightarrow> get_text_strip link = []"
  by (cases link) (simp_all add: get_text_strip_def)

lemma first_content_strip_trimmed: "first_content_strip c = Inr (Str s) \<Longrightarrow> trimmed s"
  by (cases c) (auto simp: trimmed_strip split: option.splits)

lemma quest_title_trimmed: "quest_title link = Inr (Str s) \<Longrightarrow> trimmed s"
  by (auto simp: quest_title_def trimmed_strip trimmed_Nil get_text_strip_no_contents
      split: option.splits attr_value.splits if_splits list.splits
      dest: first_content_strip_trimmed)

lemma process_link_title: "process_link link = Inr (Some r) \<Longrightarrow> quest_title link = Inr (title r)"
  by (auto simp: process_link_def split: option.splits attr_value.splits if_splits sum.splits)

lemma link_records_trimmed:
  assumes "r \<in> set (link_records link)" and "title r = Str s"
  shows "trimmed s"
proof -
  from assms(1) have "process_link link = Inr (Some r)"
    by (auto simp: link_records_def split: sum.splits option.splits)
  then have "quest_title link = Inr (title r)" by (rule process_link_title)
  with assms(2) show ?thesis by (simp add: quest_title_trimmed)
qed

lemma parse_data_records:
  assumes "parse_data BeautifulSoup html_content username = (Inr data, evs)" and "r \<in> set data"
  shows "\<exists>soup. BeautifulSoup html_content = Inr soup \<and> html_content \<noteq> []
           \<and> data = concat (map link_records (all_links soup))"
proof (cases "html_content = []")
  case True
  with assms show ?thesis by (simp add: parse_data_def)
next
  case False
  show ?thesis
  proof (cases "BeautifulSoup html_content")
    case (Inl m)
    with assms False show ?thesis by (simp add: parse_data_def parse_data_try_def)
  next
    case (Inr soup)
    with assms False parse_data_eq [of html_content BeautifulSoup soup username]
    show ?thesis by simp
  qed
qed

lemma link_records_status:
  "r \<in> set (link_records link) \<Longrightarrow> status r = ''complete'' \<or> status r = ''not started''"
  using img_status_cases
  by (auto simp: link_records_def process_link_def
      split: sum.splits option.splits attr_value.splits if_splits)

lemma link_silent:
  assumes "tag_get link ''href'' = Some (AStr href)"
    and "\<not> startswith href ''/w/'' \<or> status_img_of link = None"
  shows "link_records link = [] \<and> link_errors username link = []"
  using assms
  by (auto simp: link_records_def link_errors_def process_link_def status_img_of_def
      split: option.splits)

lemma wiki_hrefD: "wiki_href link \<Longrightarrow> \<exists>href. tag_get link ''href'' = Some (AStr href) \<and> startswith href ''/w/''"
  by (auto simp: wiki_href_def split: option.splits attr_value.splits)

lemma process_link_status_img:
  assumes "wiki_href link" and "status_img_of link = Some status_img"
  shows "process_link link =
           (case quest_title link of
              Inl e \<Rightarrow> Inl e
            | Inr t \<Rightarrow>
                if class_includes ''qc-complete'' status_img then Inr (Some \<lparr>title = t, status = ''complete''\<rparr>)
                else if class_includes ''qc-not-started'' status_img
                then Inr (Some \<lparr>title = t, status = ''not started''\<rparr>)
                else Inr None)"
proof -
  from assms(1) obtain href where "tag_get link ''href'' = Some (AStr href)" and "startswith href ''/w/''"
    by (auto dest: wiki_hrefD)
  with assms(2) show ?thesis
    by (auto simp: process_link_def status_img_of_def img_status_class
        split: option.splits sum.splits)
qed

lemma process_link_titled:
  assumes "process_link link = Inr (Some r)" and "title_attr link \<noteq> []"
  shows "title r = Str (title_attr link)"
proof -
  from assms(1) have "quest_title link = Inr (title r)" by (rule process_link_title)
  moreover from assms(2) have "quest_title link = Inr (Str (title_attr link))"
    by (auto simp: quest_title_def title_attr_def split: option.splits attr_value.splits)
  ultimately show ?thesis by simp
qed

section \<open>Helper lemmas: events\<close>

lemma emits_iff: "emits P m \<longleftrightarrow> (\<forall>w r w' evs. m w = (r, w', evs) \<longrightarrow> list_all P evs)"
proof
  assume "emits P m"
  show "\<forall>w r w' evs. m w = (r, w', evs) \<longrightarrow> list_all P evs"
  proof (intro allI impI)
    fix w r w' evs
    assume m: "m w = (r, w', evs)"
    from \<open>emits P m\<close> have "list_all P (snd (snd (m w)))" by (simp add: emits_def)
    with m show "list_all P evs" by simp
  qed
next
  assume h: "\<forall>w r w' evs. m w = (r, w', evs) \<longrightarrow> list_all P evs"
  have "list_all P (snd (snd (m w)))" for w
  proof -
    obtain r w' evs where "m w = (r, w', evs)" by (cases "m w")
    with h show ?thesis by auto
  qed
  then show "emits P m" by (simp add: emits_def)
qed

lemma emitsD: "emits P m \<Longrightarrow> m w = (r, w', evs) \<Longrightarrow> list_all P evs"
  by (simp add: emits_iff)

lemma emits_ret: "emits P (ret x)"
  by (simp add: emits_def ret_def)

lemma emits_raise: "emits P (raise e)"
  by (simp add: emits_def raise_def)

lemma emits_then_do:
  assumes "emits P m" and "\<And>x. emits P (f x)"
  shows "emits P (then_do m f)"
  unfolding emits_iff
proof (intro allI impI)
  fix w r w' evs
  assume run: "then_do m f w = (r, w', evs)"
  obtain r1 w1 evs1 where m: "m w = (r1, w1, evs1)" by (cases "m w")
  then have evs1: "list_all P evs1" using assms(1) by (simp add: emits_iff)
  show "list_all P evs"
  proof (cases r1)
    case (Inl e)
    with run m evs1 show ?thesis by (simp add: then_do_def)
  next
    case (Inr x)
    obtain r2 w2 evs2 where f: "f x w1 = (r2, w2, evs2)" by (cases "f x w1")
    then have "list_all P evs2" using assms(2) [of x] by (simp add: emits_iff)
    with run m f Inr evs1 show ?thesis by (auto simp: then_do_def)
  qed
qed

lemma emits_try_except:
  assumes "emits P m" and "\<And>e. emits P (handler e)"
  shows "emits P (try_except m catches handler)"
  unfolding emits_iff
proof (intro allI impI)
  fix w r w' evs
  assume run: "try_except m catches handler w = (r, w', evs)"
  obtain r1 w1 evs1 where m: "m w = (r1, w1, evs1)" by (cases "m w")
  then have evs1: "list_all P evs1" using assms(1) by (simp add: emits_iff)
  show "list_all P evs"
  proof (cases r1)
    case (Inr x)
    with run m evs1 show ?thesis by (simp add: try_except_def)
  next
    case (Inl e)
    obtain r2 w2 evs2 where h: "handler e w1 = (r2, w2, evs2)" by (cases "handler e w1")
    then have "list_all P evs2" using assms(2) [of e] by (simp add: emits_iff)
    with run m h Inl evs1 show ?thesis by (auto simp: try_except_def split: if_splits)
  qed
qed

lemma emits_call: "P (Call c) \<Longrightarrow> emits P (call c method)"
  by (auto simp: emits_iff call_def split: prod.splits)

lemma emits_sleep: "P (Sleep n) \<Longrightarrow> emits P (sleep n)"
  by (simp add: emits_def sleep_def)

lemma emits_do_log: "P (LogError message) \<Longrightarrow> emits P (do_log message)"
  by (simp add: emits_def do_log_def log_error_def)

lemma emits_if: "emits P a \<Longrightarrow> emits P b \<Longrightarrow> emits P (if c then a else b)"
  by simp

lemma emits_mono: "emits P m \<Longrightarrow> (\<And>ev. P ev \<Longrightarrow> Q ev) \<Longrightarrow> emits Q m"
  by (auto simp: emits_def list_all_iff)

lemmas emits_intros =
  emits_then_do emits_try_except emits_call emits_sleep emits_do_log emits_ret emits_raise emits_if

lemma click_fetch_button_emits:
  "P (Call (Click b)) \<Longrightarrow> P (Call (ExecuteScript ''arguments[0].click();'' b))
     \<Longrightarrow> emits P (click_fetch_button d b)"
  unfolding click_fetch_button_def by (intro emits_intros) simp_all

lemma attempt_try_emits: "emits interaction_event (attempt_try d url username)"
  unfolding attempt_try_def
  by (intro emits_intros click_fetch_button_emits) simp_all

lemma count_list_none: "list_all (\<lambda>ev. ev \<noteq> x) evs \<Longrightarrow> count_list evs x = 0"
  by (induction evs) auto

lemma then_do_call_count:
  assumes "\<And>x. emits (\<lambda>ev. ev \<noteq> Call c) (f x)"
  shows "count_list (snd (snd (then_do (call c method) f w))) (Call c) = 1"
proof (cases "method w")
  case (Pair r w1)
  show ?thesis
  proof (cases r)
    case (Inl e)
    with Pair show ?thesis by (simp add: then_do_def call_def)
  next
    case (Inr x)
    obtain r2 w2 evs2 where f: "f x w1 = (r2, w2, evs2)" by (cases "f x w1")
    then have "list_all (\<lambda>ev. ev \<noteq> Call c) evs2" using assms [of x] by (simp add: emits_iff)
    then have "count_list evs2 (Call c) = 0" by (rule count_list_none)
    with Pair Inr f show ?thesis by (simp add: then_do_def call_def)
  qed
qed

lemma attempt_try_one_get:
  "count_list (snd (snd (attempt_try d url username w))) (Call (Get url)) = 1"
  unfolding attempt_try_def
  by (rule then_do_call_count) (intro emits_intros click_fetch_button_emits; simp)

lemma fetch_attempts_gets:
  "count_list (snd (snd (fetch_attempts d url username n as w))) (Call (Get url)) \<le> length as"
proof (induction as arbitrary: w)
  case Nil
  show ?case by simp
next
  case (Cons a as)
  obtain r w1 evs where att: "attempt_try d url username w = (r, w1, evs)"
    by (cases "attempt_try d url username w")
  then have one: "count_list evs (Call (Get url)) = 1"
    using attempt_try_one_get [of d url username w] by simp
  obtain r2 w2 evs2 where rest: "fetch_attempts d url username n as w1 = (r2, w2, evs2)"
    by (cases "fetch_attempts d url username n as w1")
  then have "count_list evs2 (Call (Get url)) \<le> length as"
    using Cons [of w1] by simp
  with att one rest show ?case
    by (cases r) (auto simp: log_error_def)
qed

lemma fetch_attempts_emits:
  assumes "\<And>ev. interaction_event ev \<Longrightarrow> P ev" and "\<And>m. P (LogError m)"
  shows "emits P (fetch_attempts d url username n as)"
  unfolding emits_iff
proof (intro allI impI)
  fix w r w' evs
  assume "fetch_attempts d url username n as w = (r, w', evs)"
  then show "list_all P evs"
  proof (induction as arbitrary: w r w' evs)
    case Nil
    then show ?case by simp
  next
    case (Cons a as)
    obtain r1 w1 evs1 where att: "attempt_try d url username w = (r1, w1, evs1)"
      by (cases "attempt_try d url username w")
    have "list_all interaction_event evs1"
      using attempt_try_emits att by (rule emitsD)
    then have evs1: "list_all P evs1" using assms(1) by (auto simp: list_all_iff)
    obtain r2 w2 evs2 where rest: "fetch_attempts d url username n as w1 = (r2, w2, evs2)"
      by (cases "fetch_attempts d url username n as w1")
    then have "list_all P evs2" by (rule Cons.IH)
    moreover have "P (Sleep 2000)" by (rule assms(1)) simp
    ultimately show ?case using Cons.prems att evs1 rest assms(2)
      by (cases r1) (auto simp: log_error_def split: if_splits)
  qed
qed

lemma ascii_isalnum:
  "of_char c < (128::nat) \<Longrightarrow>
     (isalnum c \<or> c \<in> set [CHR ''-'', CHR ''_'']) = ascii_allowed c"
  by (auto simp: isalnum_def ascii_allowed_def Let_def)

lemma link_errors_logs: "list_all is_LogError (link_errors username link)"
  by (simp add: link_errors_def log_error_def split: sum.splits)

lemma parse_data_logs: "list_all is_LogError (snd (parse_data BeautifulSoup html_content username))"
proof (cases "html_content = []")
  case True
  then show ?thesis by (simp add: parse_data_def)
next
  case False
  show ?thesis
  proof (cases "BeautifulSoup html_content")
    case (Inl m)
    then show ?thesis using False
      by (simp add: parse_data_def parse_data_try_def log_error_def)
  next
    case (Inr soup)
    then show ?thesis using False
      by (simp add: parse_data_eq log_error_def list_all_iff)
         (auto simp: link_errors_def log_error_def split: sum.splits)
  qed
qed

lemma save_to_json_emits:
  assumes "\<And>f data. P (JsonDump f data)" and "\<And>m. P (LogError m)"
  shows "emits P (save_to_json d data filename)"
proof -
  have "emits P (\<lambda>w. case json_dump d filename data w of (r, w') \<Rightarrow> (r, w', [JsonDump filename data]))"
    using assms(1) by (auto simp: emits_iff split: prod.splits)
  then show ?thesis
    unfolding save_to_json_def using assms(2) by (intro emits_intros) simp_all
qed

lemma is_LogError_P: "is_LogError ev \<Longrightarrow> (\<And>m. P (LogError m)) \<Longrightarrow> P ev"
  by (cases ev) simp_all

lemma parse_step_emits:
  assumes "\<And>m. P (LogError m)"
  shows "emits P (\<lambda>w. case parse_data bs html username of (r, evs) \<Rightarrow> (r, w, evs))"
proof -
  have "list_all P (snd (parse_data bs html username))"
    using parse_data_logs [of bs html username] assms
    by (auto simp: list_all_iff intro: is_LogError_P)
  then show ?thesis by (auto simp: emits_iff split: prod.splits)
qed

lemma process_user_emits:
  assumes "\<And>ev. interaction_event ev \<Longrightarrow> P ev" and "\<And>m. P (LogError m)"
    and "\<And>f data. P (JsonDump f data)"
  shows "emits P (process_user d username)"
proof -
  have sl: "emits P (sleep 2000)" by (rule emits_sleep, rule assms(1)) simp
  have parsed: "emits P (then_do
                     (\<lambda>w. case parse_data (html_parser d) html username of
                          (r, evs) \<Rightarrow> (r, w, evs))
                     (\<lambda>extracted_data.
                         save_to_json d extracted_data (output_file username)))" for html
    by (intro emits_then_do parse_step_emits save_to_json_emits assms(2) assms(3))
  have body: "emits P
          (case x of None \<Rightarrow> do_log (FetchFailed username)
           | Some html \<Rightarrow>
               if html = [] then do_log (FetchFailed username)
               else then_do
                     (\<lambda>w. case parse_data (html_parser d) html username of
                          (r, evs) \<Rightarrow> (r, w, evs))
                     (\<lambda>extracted_data.
                         save_to_json d extracted_data (output_file username)))" for x
    using parsed by (cases x) (simp_all add: emits_do_log assms(2))
  have fetch: "emits P (fetch_and_interact d TARGET_URL username)"
    unfolding fetch_and_interact_def by (rule fetch_attempts_emits) (rule assms(1), assumption, rule assms(2))
  show ?thesis
    unfolding process_user_def
    by (intro emits_then_do fetch body sl)
qed

lemma for_usernames_emits:
  assumes "\<And>ev. interaction_event ev \<Longrightarrow> P ev" and "\<And>m. P (LogError m)"
    and "\<And>f data. P (JsonDump f data)"
  shows "emits P (for_usernames d usernames)"
  unfolding emits_iff
proof (intro allI impI)
  fix w r w' evs
  assume "for_usernames d usernames w = (r, w', evs)"
  then show "list_all P evs"
  proof (induction usernames arbitrary: w r w' evs)
    case Nil
    then show ?case by simp
  next
    case (Cons u us)
    obtain r1 w1 evs1 where pu: "process_user d u w = (r1, w1, evs1)"
      by (cases "process_user d u w")
    have evs1: "list_all P evs1"
      using process_user_emits [of P d u, OF assms] pu by (rule emitsD)
    obtain r2 w2 evs2 where rest: "for_usernames d us w1 = (r2, w2, evs2)"
      by (cases "for_usernames d us w1")
    then have "list_all P evs2" by (rule Cons.IH)
    with Cons.prems pu evs1 rest show ?case by (cases r1) auto
  qed
qed

lemma run_session_events:
  "\<exists>evs. snd (snd (run_session d usernames w)) = evs @ [Call Quit]
         \<and> list_all (\<lambda>ev. ev \<noteq> Call Quit) evs"
proof -
  let ?P = "\<lambda>ev. ev \<noteq> Call Quit"
  have ie: "?P ev" if "interaction_event ev" for ev using that by (cases ev) auto
  have loop: "emits ?P (for_usernames d usernames)"
    by (rule for_usernames_emits) (simp_all add: ie)
  have guarded: "emits ?P (try_except (for_usernames d usernames) is_Exception
                    (\<lambda>e. do_log (MainLoopError e)))"
    by (intro emits_try_except loop emits_do_log) simp
  obtain r1 w1 evs1 where g: "try_except (for_usernames d usernames) is_Exception
                    (\<lambda>e. do_log (MainLoopError e)) w = (r1, w1, evs1)"
    by (cases "try_except (for_usernames d usernames) is_Exception
                    (\<lambda>e. do_log (MainLoopError e)) w")
  have "list_all ?P evs1" using guarded g by (rule emitsD)
  moreover have "snd (snd (run_session d usernames w)) = evs1 @ [Call Quit]"
    using g by (simp add: run_session_def try_finally_def call_def split: prod.splits sum.splits)
  ultimately show ?thesis by blast
qed

lemma range3: "[0..<3] = [0, 1, 2]"
  by code_simp

lemma interaction_not_log: "list_all interaction_event evs \<Longrightarrow> filter is_LogError evs = []"
  by (induction evs) (auto elim: interaction_event.elims)

lemma interaction_not_dump: "list_all interaction_event evs \<Longrightarrow> filter is_JsonDump evs = []"
  by (induction evs) (auto elim: interaction_event.elims)

lemma interaction_not_failure:
  "list_all interaction_event evs \<Longrightarrow> filter (is_attempt_failure username) evs = []"
  by (induction evs) (auto elim: interaction_event.elims)

section \<open>Helper lemmas: the two drivers\<close>

lemma common_eventD:
  "common_event ev \<Longrightarrow> interaction_event ev \<and> \<not> is_implicit_wait ev \<and> \<not> is_value_read ev"
  by (induction ev rule: common_event.induct) simp_all

lemma common_event_filters:
  "list_all common_event evs \<Longrightarrow>
     filter (\<lambda>ev. interaction_event ev \<and> \<not> is_implicit_wait ev) evs = evs
     \<and> filter (\<lambda>ev. \<not> is_value_read ev) evs = evs"
  by (induction evs) (auto dest: common_eventD)

lemma then_do_assoc: "then_do (then_do m f) g = then_do m (\<lambda>x. then_do (f x) g)"
proof
  fix w
  show "then_do (then_do m f) g w = then_do m (\<lambda>x. then_do (f x) g) w"
    by (cases "m w") (auto simp: then_do_def split: sum.splits prod.splits)
qed

lemma same_outcome_prefix:
  assumes "same_outcome (r, w', evs) (r', w'', evs')" and "list_all common_event pre"
  shows "same_outcome (r, w', pre @ evs) (r', w'', pre @ evs')"
  using assms common_event_filters [of pre] by (simp add: same_outcome_def)

lemma same_outcome_call:
  assumes "common_event (Call c)"
    and "\<And>x w'. method w = (Inr x, w') \<Longrightarrow> same_outcome
           (try_except (f x) is_Exception (\<lambda>e. then_do (do_log (msg e)) (\<lambda>_. ret None)) w') (g x w')"
  shows "same_outcome
           (try_except (then_do (call c method) f) is_Exception
              (\<lambda>e. then_do (do_log (msg e)) (\<lambda>_. ret None)) w)
           (then_do (call c method) g w)"
proof (cases "method w")
  case (Pair r w1)
  have pre: "list_all common_event [Call c]" using assms(1) by simp
  show ?thesis
  proof (cases r)
    case (Inl e)
    with Pair common_eventD [OF assms(1)] show ?thesis
      by (simp add: same_outcome_def try_except_def then_do_def call_def do_log_def ret_def
            log_error_def)
  next
    case (Inr x)
    obtain r2 w2 evs2 where s: "try_except (f x) is_Exception
         (\<lambda>e. then_do (do_log (msg e)) (\<lambda>_. ret None)) w1 = (r2, w2, evs2)"
      by (cases "try_except (f x) is_Exception
         (\<lambda>e. then_do (do_log (msg e)) (\<lambda>_. ret None)) w1")
    obtain r3 w3 evs3 where a: "g x w1 = (r3, w3, evs3)" by (cases "g x w1")
    from Pair Inr have "method w = (Inr x, w1)" by simp
    from assms(2) [OF this] s a have "same_outcome (r2, w2, evs2) (r3, w3, evs3)" by simp
    then have "same_outcome (r2, w2, [Call c] @ evs2) (r3, w3, [Call c] @ evs3)"
      using pre by (rule same_outcome_prefix)
    moreover have "then_do (call c method) g w = (r3, w3, [Call c] @ evs3)"
      using Pair Inr a by (simp add: then_do_def call_def)
    moreover have "try_except (then_do (call c method) f) is_Exception
              (\<lambda>e. then_do (do_log (msg e)) (\<lambda>_. ret None)) w = (r2, w2, [Call c] @ evs2)"
      using Pair Inr s
      by (auto simp: try_except_def then_do_def call_def split: prod.splits sum.splits if_splits)
    ultimately show ?thesis by simp
  qed
qed

lemma same_outcome_sleep:
  assumes "same_outcome
           (try_except (f ()) is_Exception (\<lambda>e. then_do (do_log (msg e)) (\<lambda>_. ret None)) w) (g () w)"
  shows "same_outcome
           (try_except (then_do (sleep n) f) is_Exception
              (\<lambda>e. then_do (do_log (msg e)) (\<lambda>_. ret None)) w)
           (then_do (sleep n) g w)"
proof -
  have pre: "list_all common_event [Sleep n]" by simp
  obtain r2 w2 evs2 where s: "try_except (f ()) is_Exception
         (\<lambda>e. then_do (do_log (msg e)) (\<lambda>_. ret None)) w = (r2, w2, evs2)"
    by (cases "try_except (f ()) is_Exception
         (\<lambda>e. then_do (do_log (msg e)) (\<lambda>_. ret None)) w")
  obtain r3 w3 evs3 where a: "g () w = (r3, w3, evs3)" by (cases "g () w")
  from assms s a have "same_outcome (r2, w2, evs2) (r3, w3, evs3)" by simp
  then have "same_outcome (r2, w2, [Sleep n] @ evs2) (r3, w3, [Sleep n] @ evs3)"
    using pre by (rule same_outcome_prefix)
  moreover have "then_do (sleep n) g w = (r3, w3, [Sleep n] @ evs3)"
    using a by (simp add: then_do_def sleep_def)
  moreover have "try_except (then_do (sleep n) f) is_Exception
              (\<lambda>e. then_do (do_log (msg e)) (\<lambda>_. ret None)) w = (r2, w2, [Sleep n] @ evs2)"
    using s
    by (auto simp: try_except_def then_do_def sleep_def split: prod.splits sum.splits if_splits)
  ultimately show ?thesis by simp
qed

lemma same_outcome_implicit_wait:
  assumes "method w = (Inr (), w)"
    and "same_outcome
           (try_except (f ()) is_Exception (\<lambda>e. then_do (do_log (msg e)) (\<lambda>_. ret None)) w) a"
  shows "same_outcome
           (try_except (then_do (call (ImplicitlyWait n) method) f) is_Exception
              (\<lambda>e. then_do (do_log (msg e)) (\<lambda>_. ret None)) w) a"
proof -
  obtain r2 w2 evs2 where s: "try_except (f ()) is_Exception
         (\<lambda>e. then_do (do_log (msg e)) (\<lambda>_. ret None)) w = (r2, w2, evs2)"
    by (cases "try_except (f ()) is_Exception
         (\<lambda>e. then_do (do_log (msg e)) (\<lambda>_. ret None)) w")
  have "try_except (then_do (call (ImplicitlyWait n) method) f) is_Exception
              (\<lambda>e. then_do (do_log (msg e)) (\<lambda>_. ret None)) w
          = (r2, w2, [Call (ImplicitlyWait n)] @ evs2)"
    using s assms(1)
    by (auto simp: try_except_def then_do_def call_def split: prod.splits sum.splits if_splits)
  with assms(2) s show ?thesis by (simp add: same_outcome_def)
qed

lemma same_outcome_value_read:
  assumes "method w = (Inr v, w)" and "same_outcome s (g v w)"
  shows "same_outcome s (then_do (call (GetAttribute el a) method) g w)"
proof -
  obtain r3 w3 evs3 where a: "g v w = (r3, w3, evs3)" by (cases "g v w")
  then have "then_do (call (GetAttribute el a) method) g w
               = (r3, w3, [Call (GetAttribute el a)] @ evs3)"
    using assms(1) by (simp add: then_do_def call_def)
  with assms(2) a show ?thesis by (simp add: same_outcome_def)
qed

lemma lookup_try_emits: "emits common_event (lookup_try d)"
  unfolding lookup_try_def
  by (intro emits_intros click_fetch_button_emits) simp_all

lemma same_outcome_lookup:
  fixes d :: "'w env"
  assumes "emits common_event (L :: (unit, 'w) prog)"
  shows "same_outcome
     (try_except
        (then_do (try_except (then_do L (\<lambda>_. ret True)) is_Exception
                   (\<lambda>e. then_do (do_log (msg2 e)) (\<lambda>_. ret False)))
          (\<lambda>looked_up.
             if looked_up
             then then_do (call PageSource (drv_page_source d)) (\<lambda>page_source. ret (Some page_source))
             else ret None))
        is_Exception (\<lambda>e. then_do (do_log (msg e)) (\<lambda>_. ret None)) w)
     (then_do L (\<lambda>_. call PageSource (drv_page_source d)) w)"
proof -
  obtain r1 w1 evs1 where l: "L w = (r1, w1, evs1)" by (cases "L w")
  have "list_all common_event evs1" using assms l by (rule emitsD)
  then have f: "filter (\<lambda>ev. interaction_event ev \<and> \<not> is_implicit_wait ev) evs1 = evs1"
    "filter (\<lambda>ev. \<not> is_value_read ev) evs1 = evs1"
    using common_event_filters [of evs1] by simp_all
  show ?thesis
  proof (cases r1)
    case (Inl e)
    with l f show ?thesis
      by (simp add: same_outcome_def try_except_def then_do_def do_log_def ret_def log_error_def)
  next
    case (Inr u)
    obtain r2 w2 where p: "drv_page_source d w1 = (r2, w2)" by (cases "drv_page_source d w1")
    with l f Inr show ?thesis
      by (cases r2)
         (simp_all add: same_outcome_def try_except_def then_do_def do_log_def ret_def
            log_error_def call_def)
  qed
qed

lemma attempt_tail:
  "then_do (call (UntilClickable wait_time_short fetch_button_selector)
                (until_clickable d wait_time_short fetch_button_selector)) (\<lambda>fetch_button.
     then_do (click_fetch_button d fetch_button) (\<lambda>_.
     then_do (call (UntilPresent wait_time_long results_container_selector)
                (until_present d wait_time_long results_container_selector)) (\<lambda>_.
     then_do (sleep 5000) (\<lambda>_.
     call PageSource (drv_page_source d)))))
   = then_do (lookup_try d) (\<lambda>_. call PageSource (drv_page_source d))"
  by (simp add: lookup_try_def then_do_assoc)

section \<open>The claims\<close>

subsection \<open>C1: one record per quest anchor\<close>

text \<open>
  C1, as amended. Take a non-empty markup and its tree, and the links the code visits:
  the \<open>a\<close> elements with \<open>href\<close> and \<open>title\<close> of each \<open>div.div-col\<close>, container by
  container and in document order within a container (a link below two nested
  containers is visited once for each). Call a link a quest anchor when its \<open>href\<close>
  is a string starting with \<open>/w/\<close> and the first \<open>img\<close> below its first
  \<open>span.rs-qc-icon\<close> has the class \<open>qc-complete\<close> or \<open>qc-not-started\<close>. The list that
  \<open>parse_data\<close> returns is made of what each visited link gives, in that order: a
  quest anchor whose title attribute holds a character that is not whitespace gives
  exactly one record, with the trimmed title attribute as title and with the status
  \<open>complete\<close> for the class \<open>qc-complete\<close> and \<open>not started\<close> otherwise; a link that is
  not a quest anchor gives none, whatever the other links are. So, when every quest
  anchor has such a title, there is exactly one record for each quest anchor, in
  order, and no other record. No record has the status \<open>unknown\<close>.
\<close>

theorem parse_data_quest_anchors:
  assumes "html_content \<noteq> []" and "BeautifulSoup html_content = Inr soup"
  shows "fst (parse_data BeautifulSoup html_content username)
           = Inr (concat (map link_records (all_links soup)))
     \<and> (\<forall>link. quest_anchor link \<and> title_attr link \<noteq> []
           \<longrightarrow> link_records link = [record_of link])
     \<and> (\<forall>link. \<not> quest_anchor link \<longrightarrow> link_records link = [])
     \<and> ((\<forall>link \<in> set (all_links soup). quest_anchor link \<longrightarrow> title_attr link \<noteq> [])
          \<longrightarrow> fst (parse_data BeautifulSoup html_content username)
                = Inr (map record_of (filter quest_anchor (all_links soup))))
     \<and> (\<forall>data. fst (parse_data BeautifulSoup html_content username) = Inr data \<longrightarrow>
           (\<forall>r \<in> set data. status r = ''complete'' \<or> status r = ''not started''))"
proof (intro conjI allI impI ballI)
  show eq: "fst (parse_data BeautifulSoup html_content username)
           = Inr (concat (map link_records (all_links soup)))"
    using assms by (simp add: parse_data_eq)
  {
    assume "\<forall>link \<in> set (all_links soup). quest_anchor link \<longrightarrow> title_attr link \<noteq> []"
    then show "fst (parse_data BeautifulSoup html_content username)
                = Inr (map record_of (filter quest_anchor (all_links soup)))"
      using eq by (simp add: records_of_links)
  }
  {
    fix data r
    assume "fst (parse_data BeautifulSoup html_content username) = Inr data" and "r \<in> set data"
    with eq obtain l where "r \<in> set (link_records l)" by auto
    then show "status r = ''complete'' \<or> status r = ''not started''"
      by (rule link_records_status)
  }
next
  fix link
  assume "quest_anchor link \<and> title_attr link \<noteq> []"
  then show "link_records link = [record_of link]" by (simp add: link_records_anchor)
next
  fix link
  assume "\<not> quest_anchor link"
  then show "link_records link = []" by (rule link_records_not_anchor)
qed

text \<open>The theorem on the page of the specification's scenario, and on a page where a
  quest anchor follows a link with an empty title and a link without an icon.\<close>

theorem parse_data_quest_anchors_witness:
  "fst (parse_data (parses_to scenario_page) ''<html>'' ''Alice'')
     = Inr [\<lparr>title = Str ''Cook's Assistant'', status = ''complete''\<rparr>,
            \<lparr>title = Str ''Demon Slayer'', status = ''not started''\<rparr>]
   \<and> length (filter quest_anchor (all_links scenario_page)) = 2
   \<and> fst (parse_data (parses_to (page_of [untitled_link, plain_link, both_classes_link]))
            ''<html>'' ''Alice'')
       = Inr [\<lparr>title = Str ''Imp Catcher'', status = ''complete''\<rparr>]"
proof -
  let ?mixed = "page_of [untitled_link, plain_link, both_classes_link]"
  have h1: "''<html>'' \<noteq> []" by simp
  have h2: "parses_to scenario_page ''<html>'' = Inr scenario_page" by (simp add: parses_to_def)
  have h2': "parses_to ?mixed ''<html>'' = Inr ?mixed" by (simp add: parses_to_def)
  have h3: "\<forall>link \<in> set (all_links scenario_page). quest_anchor link \<longrightarrow> title_attr link \<noteq> []"
    by code_simp
  have recs: "map record_of (filter quest_anchor (all_links scenario_page))
     = [\<lparr>title = Str ''Cook's Assistant'', status = ''complete''\<rparr>,
        \<lparr>title = Str ''Demon Slayer'', status = ''not started''\<rparr>]"
    by code_simp
  have n: "length (filter quest_anchor (all_links scenario_page)) = 2" by code_simp
  note t = parse_data_quest_anchors
         [of "''<html>''" "parses_to scenario_page" scenario_page "''Alice''", OF h1 h2]
  from t h3 have a: "fst (parse_data (parses_to scenario_page) ''<html>'' ''Alice'')
                = Inr (map record_of (filter quest_anchor (all_links scenario_page)))"
    by blast
  note m = parse_data_quest_anchors [of "''<html>''" "parses_to ?mixed" ?mixed "''Alice''", OF h1 h2']
  have links: "all_links ?mixed = [untitled_link, plain_link, both_classes_link]" by code_simp
  have q: "quest_anchor both_classes_link \<and> title_attr both_classes_link \<noteq> []" by code_simp
  have nq: "\<not> quest_anchor plain_link" by code_simp
  have rb: "record_of both_classes_link = \<lparr>title = Str ''Imp Catcher'', status = ''complete''\<rparr>"
    by code_simp
  have u: "link_records untitled_link = []" by code_simp
  from m q have b: "link_records both_classes_link = [record_of both_classes_link]" by blast
  from m nq have p: "link_records plain_link = []" by blast
  from m have "fst (parse_data (parses_to ?mixed) ''<html>'' ''Alice'')
           = Inr (concat (map link_records (all_links ?mixed)))" by (rule conjunct1)
  then have c: "fst (parse_data (parses_to ?mixed) ''<html>'' ''Alice'')
       = Inr [\<lparr>title = Str ''Imp Catcher'', status = ''complete''\<rparr>]"
    by (simp add: links b p rb u)
  from a recs n c show ?thesis by simp
qed

text \<open>C1 as stated fails on a link whose icon span contains an image of class
  \<open>qc-complete\<close> after another image: the link is well formed in the words of the
  claim, and the code, which looks at the first image only, returns no record.\<close>

theorem second_image_counterexample:
  "spec_well_formed_anchor two_images_link
   \<and> all_links (page_of [two_images_link]) = [two_images_link]
   \<and> parse_data (parses_to (page_of [two_images_link])) ''<html>'' ''Alice'' = (Inr [], [])"
  by code_simp

subsection \<open>C2: three attempts for a user\<close>

text \<open>
  C2. The batch driver makes at most three attempts for a username (at most three
  times it navigates to the page). When three attempts in a row fail with an
  exception, it returns \<open>None\<close>; what it has done is the three attempts, each followed
  by its entry in the log, with a sleep of two seconds after the first and after the
  second entry; the log has got exactly these three entries. The loop over the users
  then logs that the fetch failed, hands nothing to \<open>json.dump\<close>, sleeps two seconds
  and goes on with the next username. When the first, the second or the third attempt
  succeeds, the driver returns its markup, and each failed attempt before it is
  followed by its entry in the log and a sleep of two seconds.
\<close>

theorem three_failed_attempts:
  assumes a1: "attempt_try d TARGET_URL username w0 = (Inl e1, w1, evs1)" and x1: "is_Exception e1"
    and a2: "attempt_try d TARGET_URL username w1 = (Inl e2, w2, evs2)" and x2: "is_Exception e2"
    and a3: "attempt_try d TARGET_URL username w2 = (Inl e3, w3, evs3)" and x3: "is_Exception e3"
  shows "fetch_and_interact d TARGET_URL username w0
           = (Inr None, w3, three_failures username e1 evs1 e2 evs2 e3 evs3)
     \<and> filter is_LogError (three_failures username e1 evs1 e2 evs2 e3 evs3)
         = [LogError (AttemptFailed 1 username e1), LogError (AttemptFailed 2 username e2),
            LogError (AttemptFailed 3 username e3)]
     \<and> length (filter (is_attempt_failure username)
                 (three_failures username e1 evs1 e2 evs2 e3 evs3)) = 3
     \<and> process_user d username w0
         = (Inr (), w3, three_failures username e1 evs1 e2 evs2 e3 evs3
                          @ [LogError (FetchFailed username), Sleep 2000])
     \<and> filter is_JsonDump (snd (snd (process_user d username w0))) = []
     \<and> for_usernames d (username # rest) w0
         = (case for_usernames d rest w3 of
              (r, w', evs') \<Rightarrow>
                (r, w', three_failures username e1 evs1 e2 evs2 e3 evs3
                          @ [LogError (FetchFailed username), Sleep 2000] @ evs'))
     \<and> count_list (snd (snd (fetch_and_interact d url user w))) (Call (Get url)) \<le> 3
     \<and> (\<forall>page v1 t1. attempt_try d url user w = (Inr page, v1, t1)
         \<longrightarrow> fetch_and_interact d url user w = (Inr (Some page), v1, t1))
     \<and> (\<forall>x1 v1 t1 page v2 t2.
           attempt_try d url user w = (Inl x1, v1, t1) \<and> is_Exception x1
           \<and> attempt_try d url user v1 = (Inr page, v2, t2)
         \<longrightarrow> fetch_and_interact d url user w
               = (Inr (Some page), v2,
                  t1 @ [LogError (AttemptFailed 1 user x1), Sleep 2000] @ t2))
     \<and> (\<forall>x1 v1 t1 x2 v2 t2 page v3 t3.
           attempt_try d url user w = (Inl x1, v1, t1) \<and> is_Exception x1
           \<and> attempt_try d url user v1 = (Inl x2, v2, t2) \<and> is_Exception x2
           \<and> attempt_try d url user v2 = (Inr page, v3, t3)
         \<longrightarrow> fetch_and_interact d url user w
               = (Inr (Some page), v3,
                  t1 @ [LogError (AttemptFailed 1 user x1), Sleep 2000]
                  @ t2 @ [LogError (AttemptFailed 2 user x2), Sleep 2000] @ t3))"
proof -
  let ?T = "three_failures username e1 evs1 e2 evs2 e3 evs3"
  have i1: "list_all interaction_event evs1" using attempt_try_emits a1 by (rule emitsD)
  have i2: "list_all interaction_event evs2" using attempt_try_emits a2 by (rule emitsD)
  have i3: "list_all interaction_event evs3" using attempt_try_emits a3 by (rule emitsD)
  have fetch: "fetch_and_interact d TARGET_URL username w0 = (Inr None, w3, ?T)"
    using assms
    by (simp add: fetch_and_interact_def range3 three_failures_def log_error_def)
  have logs: "filter is_LogError ?T
         = [LogError (AttemptFailed 1 username e1), LogError (AttemptFailed 2 username e2),
            LogError (AttemptFailed 3 username e3)]"
    using i1 i2 i3 by (simp add: three_failures_def interaction_not_log)
  have fails: "length (filter (is_attempt_failure username) ?T) = 3"
    using i1 i2 i3 by (simp add: three_failures_def interaction_not_failure)
  have user: "process_user d username w0
         = (Inr (), w3, ?T @ [LogError (FetchFailed username), Sleep 2000])"
    using fetch
    by (simp add: process_user_def then_do_def do_log_def sleep_def log_error_def)
  have "filter is_JsonDump ?T = []"
    using i1 i2 i3 by (simp add: three_failures_def interaction_not_dump)
  then have dumps: "filter is_JsonDump (snd (snd (process_user d username w0))) = []"
    by (simp add: user)
  have loop: "for_usernames d (username # rest) w0
         = (case for_usernames d rest w3 of
              (r, w', evs') \<Rightarrow>
                (r, w', ?T @ [LogError (FetchFailed username), Sleep 2000] @ evs'))"
    by (simp add: user split: prod.splits)
  have "count_list (snd (snd (fetch_and_interact d url user w))) (Call (Get url)) \<le> length [0..<3]"
    unfolding fetch_and_interact_def by (rule fetch_attempts_gets)
  then have gets: "count_list (snd (snd (fetch_and_interact d url user w))) (Call (Get url)) \<le> 3"
    by simp
  have m1: "\<forall>page v1 t1. attempt_try d url user w = (Inr page, v1, t1)
         \<longrightarrow> fetch_and_interact d url user w = (Inr (Some page), v1, t1)"
    by (simp add: fetch_and_interact_def range3)
  have m2: "\<forall>x1 v1 t1 page v2 t2.
           attempt_try d url user w = (Inl x1, v1, t1) \<and> is_Exception x1
           \<and> attempt_try d url user v1 = (Inr page, v2, t2)
         \<longrightarrow> fetch_and_interact d url user w
               = (Inr (Some page), v2,
                  t1 @ [LogError (AttemptFailed 1 user x1), Sleep 2000] @ t2)"
    by (simp add: fetch_and_interact_def range3 log_error_def)
  have m3: "\<forall>x1 v1 t1 x2 v2 t2 page v3 t3.
           attempt_try d url user w = (Inl x1, v1, t1) \<and> is_Exception x1
           \<and> attempt_try d url user v1 = (Inl x2, v2, t2) \<and> is_Exception x2
           \<and> attempt_try d url user v2 = (Inr page, v3, t3)
         \<longrightarrow> fetch_and_interact d url user w
               = (Inr (Some page), v3,
                  t1 @ [LogError (AttemptFailed 1 user x1), Sleep 2000]
                  @ t2 @ [LogError (AttemptFailed 2 user x2), Sleep 2000] @ t3)"
    by (simp add: fetch_and_interact_def range3 log_error_def)
  show ?thesis
    by (intro conjI fetch logs fails user dumps loop gets m1 m2 m3)
qed

text \<open>The theorem for the user Alice when the wait for the results container times
  out in every attempt.\<close>

theorem three_failed_attempts_witness:
  "fst (fetch_and_interact (timeout_env (Some ''Alice'') ''<html>'' scenario_page)
          TARGET_URL ''Alice'' ()) = Inr None
   \<and> filter is_LogError (snd (snd (fetch_and_interact
         (timeout_env (Some ''Alice'') ''<html>'' scenario_page) TARGET_URL ''Alice'' ())))
       = [LogError (AttemptFailed 1 ''Alice'' TimeoutException),
          LogError (AttemptFailed 2 ''Alice'' TimeoutException),
          LogError (AttemptFailed 3 ''Alice'' TimeoutException)]
   \<and> filter is_JsonDump (snd (snd (process_user
         (timeout_env (Some ''Alice'') ''<html>'' scenario_page) ''Alice'' ()))) = []"
proof -
  let ?d = "timeout_env (Some ''Alice'') ''<html>'' scenario_page"
  let ?evs = "snd (snd (attempt_try ?d TARGET_URL ''Alice'' ()))"
  have a: "attempt_try ?d TARGET_URL ''Alice'' () = (Inl TimeoutException, (), ?evs)"
    by code_simp
  have x: "is_Exception TimeoutException" by simp
  note t = three_failed_attempts [OF a x a x a x, of "[]" TARGET_URL "''Alice''" "()"]
  let ?T = "three_failures ''Alice'' TimeoutException ?evs TimeoutException ?evs
              TimeoutException ?evs"
  from t have f: "fetch_and_interact ?d TARGET_URL ''Alice'' () = (Inr None, (), ?T)"
    by (rule conjunct1)
  from t have l: "filter is_LogError ?T
       = [LogError (AttemptFailed 1 ''Alice'' TimeoutException),
          LogError (AttemptFailed 2 ''Alice'' TimeoutException),
          LogError (AttemptFailed 3 ''Alice'' TimeoutException)]"
    by (rule conjunct1 [OF conjunct2])
  from t have j: "filter is_JsonDump (snd (snd (process_user ?d ''Alice'' ()))) = []"
    by (rule conjunct1 [OF conjunct2 [OF conjunct2 [OF conjunct2 [OF conjunct2]]]])
  show ?thesis by (simp only: f l j fst_conv snd_conv simp_thms)
qed

subsection \<open>C3: failures stay inside parse_data\<close>

text \<open>
  C3, as amended. For every markup, \<open>parse_data\<close> returns a list and raises nothing.
  On a document with containers, the records and the log entries are those that each
  visited link gives on its own, in order, so that no link changes what another gives.
  A link whose processing raises an exception (its \<open>href\<close> is not a string, or the
  resolution of its title raises once the status image is found) gives no record and
  exactly one log entry, which names the exception and the link. A link whose \<open>href\<close>
  is a string that does not start with \<open>/w/\<close>, or that has no \<open>span.rs-qc-icon\<close> or no
  \<open>img\<close> below it, gives no record and no log entry. A link whose status image has
  neither known class and whose title resolves gives no record and no log entry. A
  link whose status image has a known class and whose title resolves gives its record
  and no log entry.
\<close>

theorem parse_data_anchor_failures:
  "(\<exists>data evs. parse_data BeautifulSoup html_content username = (Inr data, evs))
   \<and> (html_content \<noteq> [] \<and> BeautifulSoup html_content = Inr soup \<and> quest_containers soup \<noteq> []
        \<longrightarrow> parse_data BeautifulSoup html_content username
              = (Inr (concat (map link_records (all_links soup))),
                 concat (map (link_errors username) (all_links soup))))
   \<and> (tag_get link ''href'' = Some (AStr href)
        \<and> (\<not> startswith href ''/w/'' \<or> status_img_of link = None)
        \<longrightarrow> link_records link = [] \<and> link_errors username link = [])
   \<and> (tag_get link ''href'' = Some (AList vs)
        \<longrightarrow> link_records link = []
            \<and> link_errors username link
                = [LogError (LinkParseError username
                     (AttributeError ''list object has no attribute startswith'') link)])
   \<and> (wiki_href link \<and> status_img_of link = Some status_img \<and> quest_title link = Inl e
        \<longrightarrow> link_records link = []
            \<and> link_errors username link = [LogError (LinkParseError username e link)])
   \<and> (wiki_href link \<and> status_img_of link = Some status_img \<and> quest_title link = Inr t
        \<and> \<not> class_includes ''qc-complete'' status_img
        \<and> \<not> class_includes ''qc-not-started'' status_img
        \<longrightarrow> link_records link = [] \<and> link_errors username link = [])
   \<and> (wiki_href link \<and> status_img_of link = Some status_img \<and> quest_title link = Inr t
        \<and> (class_includes ''qc-complete'' status_img
             \<or> class_includes ''qc-not-started'' status_img)
        \<longrightarrow> link_records link
              = [\<lparr>title = t,
                   status = (if class_includes ''qc-complete'' status_img then ''complete''
                             else ''not started'')\<rparr>]
            \<and> link_errors username link = [])"
proof (intro conjI impI)
  show "\<exists>data evs. parse_data BeautifulSoup html_content username = (Inr data, evs)"
    by (rule parse_data_returns)
next
  assume "html_content \<noteq> [] \<and> BeautifulSoup html_content = Inr soup \<and> quest_containers soup \<noteq> []"
  then show "parse_data BeautifulSoup html_content username
              = (Inr (concat (map link_records (all_links soup))),
                 concat (map (link_errors username) (all_links soup)))"
    using parse_data_eq [of html_content BeautifulSoup soup username] by simp
next
  assume a: "tag_get link ''href'' = Some (AStr href)
        \<and> (\<not> startswith href ''/w/'' \<or> status_img_of link = None)"
  then show "link_records link = []" using link_silent [of link href username] by blast
  from a show "link_errors username link = []" using link_silent [of link href username] by blast
next
  assume a: "tag_get link ''href'' = Some (AList vs)"
  then show "link_records link = []" by (simp add: link_records_def process_link_def)
  from a show "link_errors username link
                = [LogError (LinkParseError username
                     (AttributeError ''list object has no attribute startswith'') link)]"
    by (simp add: link_errors_def process_link_def log_error_def)
next
  assume a: "wiki_href link \<and> status_img_of link = Some status_img \<and> quest_title link = Inl e"
  then have p: "process_link link = Inl e" by (simp add: process_link_status_img)
  then show "link_records link = []" by (simp add: link_records_def)
  from p show "link_errors username link = [LogError (LinkParseError username e link)]"
    by (simp add: link_errors_def log_error_def)
next
  assume a: "wiki_href link \<and> status_img_of link = Some status_img \<and> quest_title link = Inr t
        \<and> \<not> class_includes ''qc-complete'' status_img
        \<and> \<not> class_includes ''qc-not-started'' status_img"
  then have p: "process_link link = Inr None" by (simp add: process_link_status_img)
  then show "link_records link = []" by (simp add: link_records_def)
  from p show "link_errors username link = []" by (simp add: link_errors_def)
next
  assume a: "wiki_href link \<and> status_img_of link = Some status_img \<and> quest_title link = Inr t
        \<and> (class_includes ''qc-complete'' status_img
             \<or> class_includes ''qc-not-started'' status_img)"
  then have p: "process_link link
      = Inr (Some \<lparr>title = t,
                   status = (if class_includes ''qc-complete'' status_img then ''complete''
                             else ''not started'')\<rparr>)"
    by (auto simp: process_link_status_img)
  then show "link_records link
              = [\<lparr>title = t,
                   status = (if class_includes ''qc-complete'' status_img then ''complete''
                             else ''not started'')\<rparr>]"
    by (simp add: link_records_def)
  from p show "link_errors username link = []" by (simp add: link_errors_def)
qed

text \<open>The theorem on a page of three links: one of an unknown class whose title
  resolution raises, one without an icon, one that is a quest.\<close>

theorem parse_data_anchor_failures_witness:
  "parse_data (parses_to (page_of [unknown_untitled_link, plain_link, both_classes_link]))
       ''<html>'' ''Alice''
     = (Inr [\<lparr>title = Str ''Imp Catcher'', status = ''complete''\<rparr>],
        [LogError (LinkParseError ''Alice'' (TypeError ''NoneType object is not callable'')
           unknown_untitled_link)])"
proof -
  let ?soup = "page_of [unknown_untitled_link, plain_link, both_classes_link]"
  let ?e = "TypeError ''NoneType object is not callable''"
  let ?im = "img_of_class [''qc-not-started'', ''qc-complete'']"
  let ?un = "img_of_class [''qc-in-progress'']"
  have h: "''<html>'' \<noteq> [] \<and> parses_to ?soup ''<html>'' = Inr ?soup \<and> quest_containers ?soup \<noteq> []"
    by (simp add: parses_to_def) code_simp
  have links: "all_links ?soup = [unknown_untitled_link, plain_link, both_classes_link]"
    by code_simp
  have u: "wiki_href unknown_untitled_link \<and> status_img_of unknown_untitled_link = Some ?un
             \<and> quest_title unknown_untitled_link = Inl ?e"
    by code_simp
  have p: "tag_get plain_link ''href'' = Some (AStr ''/w/Quests'')
             \<and> (\<not> startswith ''/w/Quests'' ''/w/'' \<or> status_img_of plain_link = None)"
    by code_simp
  have b: "wiki_href both_classes_link \<and> status_img_of both_classes_link = Some ?im
             \<and> quest_title both_classes_link = Inr (Str ''Imp Catcher'')
             \<and> (class_includes ''qc-complete'' ?im \<or> class_includes ''qc-not-started'' ?im)"
    by code_simp
  have bc: "class_includes ''qc-complete'' ?im" by code_simp
  note t1 = parse_data_anchor_failures [of "parses_to ?soup" "''<html>''" "''Alice''" ?soup
      unknown_untitled_link _ _ ?un ?e]
  note t2 = parse_data_anchor_failures [of "parses_to ?soup" "''<html>''" "''Alice''" ?soup
      plain_link "''/w/Quests''"]
  note t3 = parse_data_anchor_failures [of "parses_to ?soup" "''<html>''" "''Alice''" ?soup
      both_classes_link _ _ ?im _ "Str ''Imp Catcher''"]
  from t1 h have run: "parse_data (parses_to ?soup) ''<html>'' ''Alice''
              = (Inr (concat (map link_records (all_links ?soup))),
                 concat (map (link_errors ''Alice'') (all_links ?soup)))"
    by blast
  from t1 u have r1: "link_records unknown_untitled_link = []
      \<and> link_errors ''Alice'' unknown_untitled_link
           = [LogError (LinkParseError ''Alice'' ?e unknown_untitled_link)]"
    by blast
  from t2 p have r2: "link_records plain_link = [] \<and> link_errors ''Alice'' plain_link = []"
    by blast
  from t3 b have r3: "link_records both_classes_link
              = [\<lparr>title = Str ''Imp Catcher'',
                   status = (if class_includes ''qc-complete'' ?im then ''complete''
                             else ''not started'')\<rparr>]
            \<and> link_errors ''Alice'' both_classes_link = []"
    by blast
  show ?thesis using run r1 r2 r3 bc by (simp add: links)
qed

text \<open>C3 as stated fails on a link without the icon span: its record is withheld
  and nothing is logged.\<close>

theorem silent_skip_counterexample:
  "all_links (page_of [plain_link]) = [plain_link]
   \<and> status_img_of plain_link = None
   \<and> parse_data (parses_to (page_of [plain_link])) ''<html>'' ''Alice'' = (Inr [], [])"
  by code_simp

subsection \<open>C4: the session is released once\<close>

text \<open>
  C4. In a batch run with a non-empty list of usernames in which \<open>setup_driver\<close> has
  created the session, \<open>driver.quit()\<close> is called exactly once, and it is the last thing
  the run does, whatever the session, the parser and the file system answer: whether
  the users succeed or fail, and also when an exception that no handler catches (a
  \<open>KeyboardInterrupt\<close>) leaves the loop.
\<close>

theorem session_released_once:
  assumes "setup_driver d w = (Inr True, w0, evs0)" and "usernames \<noteq> []"
  shows "count_list (snd (snd (main d usernames w))) (Call Quit) = 1
     \<and> last (snd (snd (main d usernames w))) = Call Quit"
proof -
  from assms(1) have evs0: "evs0 = []"
    by (auto simp: setup_driver_def split: prod.splits sum.splits if_splits)
  obtain evs where run: "snd (snd (run_session d usernames w0)) = evs @ [Call Quit]"
    and evs: "list_all (\<lambda>ev. ev \<noteq> Call Quit) evs"
    using run_session_events [of d usernames w0] by blast
  have "snd (snd (main d usernames w)) = evs @ [Call Quit]"
    using assms evs0 run by (simp add: main_def then_do_def split: prod.splits)
  moreover have "count_list evs (Call Quit) = 0" using evs by (rule count_list_none)
  ultimately show ?thesis by simp
qed

text \<open>The theorem on three runs over two users: one interrupted from the keyboard, one
  in which every attempt times out, one in which everything succeeds.\<close>

theorem session_released_once_witness:
  "fst (main (interrupted_env (Some ''Alice'') ''<html>'' scenario_page) [''Alice'', ''Bob''] ())
     = Inl KeyboardInterrupt
   \<and> count_list (snd (snd (main (interrupted_env (Some ''Alice'') ''<html>'' scenario_page)
        [''Alice'', ''Bob''] ()))) (Call Quit) = 1
   \<and> count_list (snd (snd (main (timeout_env (Some ''Alice'') ''<html>'' scenario_page)
        [''Alice'', ''Bob''] ()))) (Call Quit) = 1
   \<and> count_list (snd (snd (main (calm_env (Some ''Alice'') ''<html>'' scenario_page)
        [''Alice'', ''Bob''] ()))) (Call Quit) = 1"
proof -
  let ?d1 = "interrupted_env (Some ''Alice'') ''<html>'' scenario_page"
  let ?d2 = "timeout_env (Some ''Alice'') ''<html>'' scenario_page"
  let ?d3 = "calm_env (Some ''Alice'') ''<html>'' scenario_page"
  have s1: "setup_driver ?d1 () = (Inr True, (), [])" by code_simp
  have s2: "setup_driver ?d2 () = (Inr True, (), [])" by code_simp
  have s3: "setup_driver ?d3 () = (Inr True, (), [])" by code_simp
  have ne: "[''Alice'', ''Bob''] \<noteq> []" by simp
  have r: "fst (main ?d1 [''Alice'', ''Bob''] ()) = Inl KeyboardInterrupt" by code_simp
  from session_released_once [OF s1 ne] session_released_once [OF s2 ne]
    session_released_once [OF s3 ne] r
  show ?thesis by simp
qed

subsection \<open>C5: a document without result containers\<close>

text \<open>
  C5, as amended. For every markup that parses to a tree with no \<open>div\<close> of class
  \<open>div-col\<close>, \<open>parse_data\<close> returns the empty list; it writes exactly one entry to the
  log, the structural warning, when the markup is not the empty string, and no entry at
  all when it is the empty string, which the guard \<open>if not html_content\<close> answers before
  any parsing.
\<close>

theorem parse_data_no_containers:
  assumes "BeautifulSoup html_content = Inr soup" and "quest_containers soup = []"
  shows "parse_data BeautifulSoup html_content username =
           (Inr [], if html_content = [] then [] else [LogError (NoContainers username)])"
proof (cases "html_content = []")
  case True
  then show ?thesis by (simp add: parse_data_def)
next
  case False
  with assms parse_data_eq [of html_content BeautifulSoup soup username]
  show ?thesis by (simp add: all_links_def log_error_def)
qed

text \<open>The theorem at a markup whose tree is empty.\<close>

theorem parse_data_no_containers_witness:
  "parses_to empty_page ''<html></html>'' = Inr empty_page
   \<and> quest_containers empty_page = []
   \<and> parse_data (parses_to empty_page) ''<html></html>'' ''Alice''
       = (Inr [], [LogError (NoContainers ''Alice'')])"
proof -
  have h1: "parses_to empty_page ''<html></html>'' = Inr empty_page"
    by (simp add: parses_to_def)
  have h2: "quest_containers empty_page = []" by code_simp
  from parse_data_no_containers
         [of "parses_to empty_page" "''<html></html>''" empty_page "''Alice''", OF h1 h2] h1 h2
  show ?thesis by simp
qed

text \<open>C5 as stated fails at the empty string: the list is empty, and so is the log.\<close>

theorem empty_markup_counterexample:
  "quest_containers empty_page = []
   \<and> fst (parse_data (parses_to empty_page) [] ''Alice'') = Inr []
   \<and> length (snd (parse_data (parses_to empty_page) [] ''Alice'')) \<noteq> 1"
  by code_simp

subsection \<open>C6: the file name of a user\<close>

text \<open>
  C6, as amended. The sanitized name has the length of the username and, at each
  position, the character of the username when that character is alphanumeric in
  Python's sense (\<open>str.isalnum\<close>, which accepts letters and digits beyond ASCII) or is
  \<open>-\<close> or \<open>_\<close>, and \<open>_\<close> otherwise. On a username of ASCII characters this is the
  replacement of every character outside \<open>[A-Za-z0-9_-]\<close> by \<open>_\<close>.
\<close>

theorem safe_username_replaces:
  "length (safe_username username) = length username
   \<and> (\<forall>i < length username.
         safe_username username ! i =
           (if isalnum (username ! i) \<or> username ! i = CHR ''-'' \<or> username ! i = CHR ''_''
            then username ! i else CHR ''_''))
   \<and> ((\<forall>c \<in> set username. of_char c < (128::nat))
         \<longrightarrow> safe_username username = spec_sanitize username)"
proof (intro conjI impI)
  show "length (safe_username username) = length username"
    by (simp add: safe_username_def)
  show "\<forall>i < length username.
         safe_username username ! i =
           (if isalnum (username ! i) \<or> username ! i = CHR ''-'' \<or> username ! i = CHR ''_''
            then username ! i else CHR ''_'')"
    by (simp add: safe_username_def)
  assume "\<forall>c \<in> set username. of_char c < (128::nat)"
  then show "safe_username username = spec_sanitize username"
    unfolding safe_username_def spec_sanitize_def
    by (intro map_cong refl) (simp only: ascii_isalnum)
qed

text \<open>The theorem on the example of the specification.\<close>

theorem safe_username_replaces_witness:
  "safe_username ''Zezima!'' = ''Zezima_'' \<and> spec_sanitize ''Zezima!'' = ''Zezima_''"
proof -
  have h: "\<forall>c \<in> set ''Zezima!''. of_char c < (128::nat)" by simp
  have s: "spec_sanitize ''Zezima!'' = ''Zezima_''" by code_simp
  from safe_username_replaces [of "''Zezima!''"] h s show ?thesis by simp
qed

text \<open>C6 as stated fails on a letter outside ASCII: \<open>e\<close> with a diaeresis (U+00EB)
  is kept, where the claim replaces it.\<close>

theorem latin_letter_counterexample:
  "safe_username [CHR ''Z'', CHR ''o'', CHR 0xEB] = [CHR ''Z'', CHR ''o'', CHR 0xEB]
   \<and> spec_sanitize [CHR ''Z'', CHR ''o'', CHR 0xEB] = ''Zo_''"
  by code_simp

subsection \<open>C7: titles of the records\<close>

text \<open>
  C7, as amended. Every record that \<open>parse_data\<close> returns is the record of a visited
  link of the document. A title that is a string has no leading and no trailing
  whitespace. The record of a link whose title attribute holds a character that is
  not whitespace has the trimmed attribute as its title: a string that is not empty,
  without leading or trailing whitespace, whatever the titles of the other links of
  the page are.
\<close>

theorem record_titles_trimmed:
  assumes "parse_data BeautifulSoup html_content username = (Inr data, evs)" and "r \<in> set data"
  shows "(\<forall>s. title r = Str s \<longrightarrow> trimmed s)
     \<and> (\<exists>soup link. BeautifulSoup html_content = Inr soup \<and> link \<in> set (all_links soup)
           \<and> process_link link = Inr (Some r))
     \<and> (\<forall>link. process_link link = Inr (Some r) \<and> title_attr link \<noteq> []
           \<longrightarrow> title r = Str (title_attr link) \<and> title_attr link \<noteq> []
               \<and> trimmed (title_attr link))"
proof -
  from parse_data_records [OF assms]
  obtain soup where soup: "BeautifulSoup html_content = Inr soup"
    and data: "data = concat (map link_records (all_links soup))" by blast
  from data assms(2) obtain l where l: "l \<in> set (all_links soup)" and r: "r \<in> set (link_records l)"
    by auto
  from r have p: "process_link l = Inr (Some r)"
    by (auto simp: link_records_def split: sum.splits option.splits)
  have first: "\<forall>s. title r = Str s \<longrightarrow> trimmed s"
    using r by (auto dest: link_records_trimmed)
  have second: "\<exists>soup link. BeautifulSoup html_content = Inr soup \<and> link \<in> set (all_links soup)
           \<and> process_link link = Inr (Some r)"
    using soup l p by blast
  have third: "\<forall>link. process_link link = Inr (Some r) \<and> title_attr link \<noteq> []
           \<longrightarrow> title r = Str (title_attr link) \<and> title_attr link \<noteq> []
               \<and> trimmed (title_attr link)"
    using first by (auto dest: process_link_titled)
  from first second third show ?thesis by blast
qed

text \<open>The theorem on the record of a titled link that shares its page with two links
  of empty title.\<close>

theorem record_titles_trimmed_witness:
  "parse_data (parses_to (page_of [untitled_link, blank_title_link, both_classes_link]))
       ''<html>'' ''Alice''
     = (Inr [\<lparr>title = Str [], status = ''not started''\<rparr>,
            \<lparr>title = Str ''Imp Catcher'', status = ''complete''\<rparr>],
        [LogError (LinkParseError ''Alice'' (TypeError ''NoneType object is not callable'')
           untitled_link)])
   \<and> title_attr both_classes_link = ''Imp Catcher''
   \<and> trimmed ''Imp Catcher''"
proof -
  let ?soup = "page_of [untitled_link, blank_title_link, both_classes_link]"
  let ?r = "\<lparr>title = Str ''Imp Catcher'', status = ''complete''\<rparr>"
  let ?data = "[\<lparr>title = Str [], status = ''not started''\<rparr>, ?r]"
  let ?evs = "[LogError (LinkParseError ''Alice'' (TypeError ''NoneType object is not callable'')
           untitled_link)]"
  have h1: "parse_data (parses_to ?soup) ''<html>'' ''Alice'' = (Inr ?data, ?evs)"
    by code_simp
  have h2: "?r \<in> set ?data" by simp
  have p: "process_link both_classes_link = Inr (Some ?r)" by code_simp
  have t: "title_attr both_classes_link = ''Imp Catcher''" by code_simp
  from record_titles_trimmed [OF h1 h2] p t
  have "trimmed (title_attr both_classes_link)" by fastforce
  with h1 t show ?thesis by simp
qed

text \<open>C7 as stated fails on a link with an empty title attribute whose first child is
  a blank text node: its record has the empty title.\<close>

theorem empty_title_counterexample:
  "parse_data (parses_to (page_of [blank_title_link])) ''<html>'' ''Alice''
     = (Inr [\<lparr>title = Str [], status = ''not started''\<rparr>], [])"
  by code_simp

subsection \<open>C8: the fallback for the title\<close>

text \<open>
  C8. The claim is that a link whose title attribute is empty gets its title from its
  text, and that the fallback never aborts the link. The code calls \<open>strip()\<close> on the
  first child whatever it is: on the link below, whose first child is the icon span,
  that raises a \<open>TypeError\<close>, the handler of the link logs it, and no record is
  returned, although the full text of the link is \<open>Cook's Assistant\<close>.
\<close>

theorem title_fallback_raises:
  "spec_well_formed_anchor untitled_link
   \<and> title_attr untitled_link = []
   \<and> get_text_strip untitled_link = ''Cook's Assistant''
   \<and> quest_title untitled_link = Inl (TypeError ''NoneType object is not callable'')
   \<and> parse_data (parses_to (page_of [untitled_link])) ''<html>'' ''Alice''
       = (Inr [], [LogError (LinkParseError ''Alice''
                     (TypeError ''NoneType object is not callable'') untitled_link)])"
  by code_simp

subsection \<open>C9: the single-user driver and the batch driver\<close>

text \<open>
  C9, as amended. Take a run from a session \<open>w\<close>, with a URL and a username. Suppose
  that in this run \<open>implicitly_wait(5)\<close>, called on the session that \<open>get\<close> has left,
  succeeds and leaves it as it is, and that the value of the input read back on the
  session that \<open>send_keys\<close> has left is the username, the read leaving the session as
  it is. Then the single-user driver and one attempt of the batch driver end alike:
  the single-user driver returns the markup that the attempt returns, and \<open>None\<close>
  where the attempt raises an \<open>Exception\<close> (any other exception leaves both); the
  session is in the same state afterwards; and the calls on the session and the sleeps
  are the same in the same order, apart from the call \<open>implicitly_wait(5)\<close>, which only
  the single-user driver makes, and the read of the value, which only the batch driver
  makes.
\<close>

theorem drivers_agree:
  assumes iw: "\<And>w1. drv_get d url w = (Inr (), w1)
                 \<Longrightarrow> drv_implicitly_wait d 5 w1 = (Inr (), w1)"
    and echo: "\<And>w1 username_input w2 w3 w4.
                 drv_get d url w = (Inr (), w1)
                 \<Longrightarrow> until_visible d wait_time_long username_input_selector w1
                       = (Inr username_input, w2)
                 \<Longrightarrow> elem_clear d username_input w2 = (Inr (), w3)
                 \<Longrightarrow> elem_send_keys d username_input username w3 = (Inr (), w4)
                 \<Longrightarrow> elem_get_attribute d username_input ''value'' w4
                       = (Inr (Some username), w4)"
  shows "fst (fetch_and_interact_single d url username w)
           = (case fst (attempt_try d url username w) of
                Inr page_source \<Rightarrow> Inr (Some page_source)
              | Inl e \<Rightarrow> if is_Exception e then Inr None else Inl e)
     \<and> fst (snd (fetch_and_interact_single d url username w))
         = fst (snd (attempt_try d url username w))
     \<and> filter (\<lambda>ev. interaction_event ev \<and> \<not> is_implicit_wait ev)
          (snd (snd (fetch_and_interact_single d url username w)))
         = filter (\<lambda>ev. \<not> is_value_read ev) (snd (snd (attempt_try d url username w)))"
proof -
  have "same_outcome (fetch_and_interact_single d url username w) (attempt_try d url username w)"
    unfolding fetch_and_interact_single_def attempt_try_def
    apply (rule same_outcome_call, simp)
    subgoal premises g for x w1
      apply (rule same_outcome_implicit_wait)
       apply (rule iw)
      using g apply simp
      apply (rule same_outcome_call, simp)
      subgoal premises v for username_input w2
        apply (rule same_outcome_call, simp)
        subgoal premises c for y w3
          apply (rule same_outcome_sleep)
          apply (rule same_outcome_call, simp)
          subgoal premises k for z w4
            apply (rule same_outcome_sleep)
            apply (rule same_outcome_value_read)
             apply (rule echo [of w1 username_input w2 w3 w4])
            using g apply simp
            using v apply simp
            using c apply simp
            using k apply simp
            apply (simp only: simp_thms if_False attempt_tail)
            apply (rule same_outcome_lookup, rule lookup_try_emits)
            done
          done
        done
      done
    done
  then show ?thesis by (simp add: same_outcome_def)
qed

text \<open>The theorem on a session whose input field keeps what is typed (and held other
  text before), and on one where the wait for the results container times out.\<close>

theorem drivers_agree_witness:
  "fst (fetch_and_interact_single (field_env ''<html>'' scenario_page) TARGET_URL ''Alice'' ''old'')
     = Inr (Some ''<html>'')
   \<and> fst (attempt_try (field_env ''<html>'' scenario_page) TARGET_URL ''Alice'' ''old'')
       = Inr ''<html>''
   \<and> elem_get_attribute (field_env ''<html>'' scenario_page) 1 ''value'' ''old''
       = (Inr (Some ''old''), ''old'')
   \<and> fst (fetch_and_interact_single (timeout_env (Some ''Alice'') ''<html>'' scenario_page)
          TARGET_URL ''Alice'' ()) = Inr None
   \<and> fst (attempt_try (timeout_env (Some ''Alice'') ''<html>'' scenario_page)
          TARGET_URL ''Alice'' ()) = Inl TimeoutException"
proof -
  let ?f = "field_env ''<html>'' scenario_page"
  let ?t = "timeout_env (Some ''Alice'') ''<html>'' scenario_page"
  have iwf: "\<And>w1. drv_get ?f TARGET_URL ''old'' = (Inr (), w1)
                 \<Longrightarrow> drv_implicitly_wait ?f 5 w1 = (Inr (), w1)"
    by (simp add: field_env_def)
  have echof: "\<And>w1 username_input w2 w3 w4.
                 drv_get ?f TARGET_URL ''old'' = (Inr (), w1)
                 \<Longrightarrow> until_visible ?f wait_time_long username_input_selector w1
                       = (Inr username_input, w2)
                 \<Longrightarrow> elem_clear ?f username_input w2 = (Inr (), w3)
                 \<Longrightarrow> elem_send_keys ?f username_input ''Alice'' w3 = (Inr (), w4)
                 \<Longrightarrow> elem_get_attribute ?f username_input ''value'' w4
                       = (Inr (Some ''Alice''), w4)"
    by (auto simp: field_env_def)
  have iwt: "\<And>w1. drv_get ?t TARGET_URL () = (Inr (), w1)
                 \<Longrightarrow> drv_implicitly_wait ?t 5 w1 = (Inr (), w1)"
    by (simp add: timeout_env_def calm_env_def)
  have echot: "\<And>w1 username_input w2 w3 w4.
                 drv_get ?t TARGET_URL () = (Inr (), w1)
                 \<Longrightarrow> until_visible ?t wait_time_long username_input_selector w1
                       = (Inr username_input, w2)
                 \<Longrightarrow> elem_clear ?t username_input w2 = (Inr (), w3)
                 \<Longrightarrow> elem_send_keys ?t username_input ''Alice'' w3 = (Inr (), w4)
                 \<Longrightarrow> elem_get_attribute ?t username_input ''value'' w4
                       = (Inr (Some ''Alice''), w4)"
    by (simp add: timeout_env_def calm_env_def)
  have af: "fst (attempt_try ?f TARGET_URL ''Alice'' ''old'') = Inr ''<html>''" by code_simp
  have at: "fst (attempt_try ?t TARGET_URL ''Alice'' ()) = Inl TimeoutException" by code_simp
  have old: "elem_get_attribute ?f 1 ''value'' ''old'' = (Inr (Some ''old''), ''old'')"
    by (simp add: field_env_def)
  from drivers_agree [of ?f TARGET_URL "''old''" "''Alice''", OF iwf echof]
  have sf: "fst (fetch_and_interact_single ?f TARGET_URL ''Alice'' ''old'') = Inr (Some ''<html>'')"
    by (simp add: af)
  from drivers_agree [of ?t TARGET_URL "()" "''Alice''", OF iwt echot]
  have st: "fst (fetch_and_interact_single ?t TARGET_URL ''Alice'' ()) = Inr None"
    by (simp add: at)
  from sf af old st at show ?thesis by simp
qed

text \<open>C9 as stated fails when the input reads back something other than the username
  (here a keystroke is lost): the attempt of the batch driver fails on the check, and
  so do all three; the single-user driver, which does not check, returns the markup.
  The steps differ as well: only the single-user driver sets the implicit wait.\<close>

theorem echo_mismatch_counterexample:
  "fst (attempt_try (calm_env (Some ''Alic'') ''<html>'' scenario_page) TARGET_URL ''Alice'' ())
     = Inl (Exception ''Username input verification failed'')
   \<and> fst (fetch_and_interact (calm_env (Some ''Alic'') ''<html>'' scenario_page)
          TARGET_URL ''Alice'' ()) = Inr None
   \<and> fst (fetch_and_interact_single (calm_env (Some ''Alic'') ''<html>'' scenario_page)
          TARGET_URL ''Alice'' ()) = Inr (Some ''<html>'')
   \<and> count_list (snd (snd (fetch_and_interact_single
          (calm_env (Some ''Alic'') ''<html>'' scenario_page) TARGET_URL ''Alice'' ())))
        (Call (ImplicitlyWait 5)) = 1
   \<and> count_list (snd (snd (attempt_try
          (calm_env (Some ''Alic'') ''<html>'' scenario_page) TARGET_URL ''Alice'' ())))
        (Call (ImplicitlyWait 5)) = 0"
  by code_simp

subsection \<open>C10: both classes on one image\<close>

text \<open>
  C10. The claim is that a status image whose class list holds both \<open>qc-complete\<close> and
  \<open>qc-not-started\<close> makes \<open>parse_data\<close> return the link's record with the status
  \<open>complete\<close>. The classification does give \<open>complete\<close>, and the record has it when
  it is returned (the second page below). But on the link below, whose title is empty
  and whose first child is the icon span, the fallback for the title raises, as under
  C8, and no record is returned for the image.
\<close>

theorem both_classes_no_record:
  "tag_get both_untitled_link ''href'' = Some (AStr ''/w/Imp_Catcher'')
   \<and> status_img_of both_untitled_link = Some (img_of_class [''qc-not-started'', ''qc-complete''])
   \<and> tag_get (img_of_class [''qc-not-started'', ''qc-complete'']) ''class''
       = Some (AList [''qc-not-started'', ''qc-complete''])
   \<and> img_status (img_of_class [''qc-not-started'', ''qc-complete'']) = ''complete''
   \<and> parse_data (parses_to (page_of [both_untitled_link])) ''<html>'' ''Alice''
       = (Inr [], [LogError (LinkParseError ''Alice''
                     (TypeError ''NoneType object is not callable'') both_untitled_link)])
   \<and> parse_data (parses_to (page_of [both_classes_link])) ''<html>'' ''Alice''
       = (Inr [\<lparr>title = Str ''Imp Catcher'', status = ''complete''\<rparr>], [])"
  by code_simp

end
